theory Spec2Isabelle
  imports Complex_Main
begin

section \<open>Regular expressions as the monitor uses them\<close>

text \<open>
  The monitor recognises lines with Python's \<^verbatim>\<open>re.match\<close>. The patterns of its table use
  literals, the dot, two character classes, greedy and lazy repetition, capture groups, one
  lookahead and the anchors. A pattern is a value of \<open>regex\<close>; matching is backtracking
  search, which \<open>run\<close> renders as the list of all ways to match, most preferred first.
\<close>

datatype regex =
    Eps
  | Chr char
  | Dot
  | Range char char
  | NoneOf "char list"
  | Bol
  | Eol
  | Seq regex regex
  | Star regex
  | Lazy regex
  | Group nat regex
  | Ahead regex

record cursor =
  pos :: nat
  rest :: string
  groups :: "nat \<Rightarrow> string option"

definition advance :: "cursor \<Rightarrow> cursor" where
  "advance c = c\<lparr>pos := Suc (pos c), rest := tl (rest c)\<rparr>"

definition one_char :: "(char \<Rightarrow> bool) \<Rightarrow> cursor \<Rightarrow> cursor list" where
  "one_char p c = (case rest c of [] \<Rightarrow> [] | x # xs \<Rightarrow> if p x then [advance c] else [])"

definition capture :: "nat \<Rightarrow> cursor \<Rightarrow> cursor \<Rightarrow> cursor" where
  "capture n c c' = c'\<lparr>groups := (groups c')(n \<mapsto> take (pos c' - pos c) (rest c))\<rparr>"

text \<open>
  \<open>Dot\<close> is any character but the newline; \<open>Eol\<close> (the dollar) holds at the end of the
  string and just before a newline that ends it; \<open>Bol\<close> (the caret) holds at position 0.
  \<open>Star\<close> prefers one more repetition, \<open>Lazy\<close> (star question mark) prefers to stop.
\<close>

function run :: "regex \<Rightarrow> cursor \<Rightarrow> cursor list" where
  "run Eps c = [c]"
| "run (Chr a) c = one_char (\<lambda>x. x = a) c"
| "run Dot c = one_char (\<lambda>x. x \<noteq> CHR 0x0A) c"
| "run (Range lo hi) c =
     one_char (\<lambda>x. (of_char lo :: nat) \<le> of_char x \<and> (of_char x :: nat) \<le> of_char hi) c"
| "run (NoneOf cs) c = one_char (\<lambda>x. x \<notin> set cs) c"
| "run Bol c = (if pos c = 0 then [c] else [])"
| "run Eol c = (if rest c = [] \<or> rest c = [CHR 0x0A] then [c] else [])"
| "run (Seq r1 r2) c = concat (map (\<lambda>c'. run r2 c') (run r1 c))"
| "run (Star r) c =
     concat (map (\<lambda>c'. if length (rest c') < length (rest c) then run (Star r) c' else [])
                 (run r c)) @ [c]"
| "run (Lazy r) c =
     c # concat (map (\<lambda>c'. if length (rest c') < length (rest c) then run (Lazy r) c' else [])
                     (run r c))"
| "run (Group n r) c = map (capture n c) (run r c)"
| "run (Ahead r) c = (if run r c = [] then [] else [c])"
  by pat_completeness auto
termination
  by (relation "measures [\<lambda>(r, c). size r, \<lambda>(r, c). length (rest c)]") auto

definition lit :: "string \<Rightarrow> regex" where
  "lit s = foldr (\<lambda>a r. Seq (Chr a) r) s Eps"

definition Plus :: "regex \<Rightarrow> regex" where
  "Plus r = Seq r (Star r)"

definition seqs :: "regex list \<Rightarrow> regex" where
  "seqs rs = foldr Seq rs Eps"

definition digit :: regex where
  "digit = Range CHR ''0'' CHR ''9''"

type_synonym match = "nat \<Rightarrow> string option"

text \<open>\<^verbatim>\<open>re.match(pattern, line)\<close>: a match anchored at the start of the line, or None.\<close>

definition re_match :: "regex \<Rightarrow> string \<Rightarrow> match option" where
  "re_match r s = (case run r \<lparr>pos = 0, rest = s, groups = Map.empty\<rparr> of
       [] \<Rightarrow> None | c # _ \<Rightarrow> Some (groups c))"

text \<open>
  \<^verbatim>\<open>match.group(n)\<close>. Every group of the table's patterns takes part in every match of
  its pattern, so the empty string for an absent group is never read.
\<close>

definition mgroup :: "match \<Rightarrow> nat \<Rightarrow> string" where
  "mgroup m n = (case m n of None \<Rightarrow> [] | Some s \<Rightarrow> s)"

text \<open>
  The one exception that the handlers can raise and that \<^verbatim>\<open>watch_items\<close> does not catch.
\<close>

datatype error = ValueError

text \<open>
  \<^verbatim>\<open>sys.int_max_str_digits\<close>, at its default: \<^verbatim>\<open>int(s)\<close> raises \<^verbatim>\<open>ValueError\<close> on a
  string of more digits, leading zeros counted.
\<close>

definition int_max_str_digits :: nat where
  "int_max_str_digits = 4300"

text \<open>
  \<^verbatim>\<open>int(s)\<close> on a string of decimal digits: the number the digits denote (\<open>decimal\<close>), or
  the \<^verbatim>\<open>ValueError\<close> of a string over the limit. The handler applies it to the groups of the
  summary pattern only, which are non-empty strings of digits (lemma
  \<open>re_finish_captures_digits\<close> below), so the \<^verbatim>\<open>ValueError\<close> of a string that is not a
  number cannot arise.
\<close>

definition decimal :: "string \<Rightarrow> int" where
  "decimal s = int (foldl (\<lambda>a c. 10 * a + (of_char c - 48)) 0 s)"

definition py_int :: "string \<Rightarrow> error + int" where
  "py_int s = (if int_max_str_digits < length s then Inl ValueError else Inr (decimal s))"

subsection \<open>The eight patterns of \<^verbatim>\<open>INTERESTING\<close>\<close>

definition re_abort :: regex where
  "re_abort = Seq (lit ''abort'') (Group 1 Eps)"

definition re_guru :: regex where
  "re_guru = lit ''Guru Meditation Error''"

definition re_hardfault :: regex where
  "re_hardfault = lit ''<error> hardfault''"

definition re_zephyr :: regex where
  "re_zephyr = lit ''>>> ZEPHYR FATAL ERROR''"

definition re_run :: regex where
  "re_run = seqs [Bol, Star Dot, lit ''Running'', Plus (Chr CHR '' ''),
      Group 1 (Seq (Plus (NoneOf ''.'')) (Ahead (Chr CHR ''.''))), Dot, Dot, Dot, Eol]"

definition re_pass :: regex where
  "re_pass = seqs [Bol, Lazy Dot, lit ''.c:'', Star digit, Chr CHR '':'',
      Group 1 (Lazy Dot), lit '':PASS'', Eol]"

definition re_fail :: regex where
  "re_fail = seqs [Bol, Lazy Dot, lit ''.c:'', Star digit, Chr CHR '':'',
      Group 1 (Lazy Dot), lit '':FAIL:'']"

definition re_finish :: regex where
  "re_finish = seqs [Group 1 (Seq Bol (Plus digit)), lit '' Test'', Star (Chr CHR ''s''),
      Chr CHR '' '', Group 2 (Plus digit), lit '' Failure'', Star (Chr CHR ''s''),
      Chr CHR '' '', Group 3 (Plus digit), lit '' Ignored'']"

section \<open>The results dictionary and the handlers\<close>

record results =
  finished :: bool
  reboots :: int
  items_run :: int
  items_failed :: int
  items_ignored :: int
  overall_start_time :: real
  last_start_time :: real
  outcomes :: "(string \<times> int \<times> string) list"

text \<open>
  What the handlers and the supervisor touch besides the dictionary: \<open>reads\<close> counts the
  calls of \<^verbatim>\<open>time()\<close> made so far, \<open>timers\<close> the \<^verbatim>\<open>threading.Timer\<close> objects started,
  \<open>seen\<close> holds the dequeued lines in the order the supervisor handed them to the printer,
  and \<open>joined\<close> says whether \<^verbatim>\<open>readline_thread.join()\<close> has run. The clock is a function
  from the number of the call to the value that call returns. The notifications to the
  printer and to the reporter change none of this and are left out.
\<close>

record world = results +
  reads :: nat
  timers :: nat
  seen :: "string list"
  joined :: bool

type_synonym clock = "nat \<Rightarrow> real"

text \<open>
  A call of a handler either returns, leaving the world changed, or raises, leaving the
  world as it stands at the \<^verbatim>\<open>raise\<close>: the dictionary is changed in place, so what a
  handler wrote before it raised stays written. Four of the five handlers cannot raise and
  are functions from world to world; \<open>returning\<close> makes such a function a handler.
\<close>

type_synonym effect = "clock \<Rightarrow> match \<Rightarrow> world \<Rightarrow> world"

type_synonym attempt = "(error \<times> world) + world"

type_synonym handler = "clock \<Rightarrow> match \<Rightarrow> world \<Rightarrow> attempt"

definition returning :: "effect \<Rightarrow> handler" where
  "returning h clock m w = Inr (h clock m w)"

text \<open>The world a call leaves behind, whether it returned or raised.\<close>

definition left_by :: "attempt \<Rightarrow> world" where
  "left_by a = (case a of Inl (e, u) \<Rightarrow> u | Inr u \<Rightarrow> u)"

definition delayed_finish :: "world \<Rightarrow> world" where
  "delayed_finish w = w\<lparr>finished := True\<rparr>"

definition reboot_callback :: effect where
  "reboot_callback clock m w = w\<lparr>reboots := reboots w + 1, timers := Suc (timers w)\<rparr>"

definition run_callback :: effect where
  "run_callback clock m w =
     w\<lparr>last_start_time := clock (reads w), reads := Suc (reads w),
       items_run := items_run w + 1\<rparr>"

definition record_outcome :: "world \<Rightarrow> string \<Rightarrow> int \<Rightarrow> string \<Rightarrow> world" where
  "record_outcome w name duration status = w\<lparr>outcomes := outcomes w @ [(name, duration, status)]\<rparr>"

definition pass_callback :: effect where
  "pass_callback clock m w =
     (let end_time = clock (reads w);
          w1 = w\<lparr>reads := Suc (reads w)\<rparr>
      in record_outcome w1 (mgroup m 1) \<lceil>end_time - last_start_time w1\<rceil> ''PASS'')"

definition fail_callback :: effect where
  "fail_callback clock m w =
     (let w1 = w\<lparr>items_failed := items_failed w + 1\<rparr>;
          end_time = clock (reads w1);
          w2 = w1\<lparr>reads := Suc (reads w1)\<rparr>
      in record_outcome w2 (mgroup m 1) \<lceil>end_time - last_start_time w2\<rceil> ''FAIL'')"

text \<open>
  The handler of the summary line reads the clock, then converts and stores the three
  numbers one after the other, then sets \<^verbatim>\<open>finished\<close>; a conversion that raises leaves
  the later statements undone.
\<close>

definition finish_callback :: handler where
  "finish_callback clock m w =
     (let w0 = w\<lparr>reads := Suc (reads w)\<rparr> in
      case py_int (mgroup m 1) of
        Inl e \<Rightarrow> Inl (e, w0)
      | Inr n1 \<Rightarrow>
         (let w1 = w0\<lparr>items_run := n1\<rparr> in
          case py_int (mgroup m 2) of
            Inl e \<Rightarrow> Inl (e, w1)
          | Inr n2 \<Rightarrow>
             (let w2 = w1\<lparr>items_failed := n2\<rparr> in
              case py_int (mgroup m 3) of
                Inl e \<Rightarrow> Inl (e, w2)
              | Inr n3 \<Rightarrow> Inr (w2\<lparr>items_ignored := n3, finished := True\<rparr>))))"

definition INTERESTING :: "(regex \<times> handler) list" where
  "INTERESTING =
     [(re_abort, returning reboot_callback),
      (re_guru, returning reboot_callback),
      (re_hardfault, returning reboot_callback),
      (re_zephyr, returning reboot_callback),
      (re_run, returning run_callback),
      (re_pass, returning pass_callback),
      (re_fail, returning fail_callback),
      (re_finish, finish_callback)]"

text \<open>
  The body of the \<^verbatim>\<open>for entry in INTERESTING\<close> loop of \<^verbatim>\<open>watch_items\<close>: the entry's
  pattern is matched against the line and, on a match, its handler is called.
\<close>

definition try_entry :: "clock \<Rightarrow> string \<Rightarrow> regex \<times> handler \<Rightarrow> world \<Rightarrow> attempt" where
  "try_entry clock line entry w =
     (case re_match (fst entry) line of
        None \<Rightarrow> Inr w
      | Some m \<Rightarrow> (snd entry) clock m w)"

text \<open>
  The loop itself, which runs over the whole table: it has no \<^verbatim>\<open>break\<close>, and only an
  exception ends it early.
\<close>

definition classify :: "clock \<Rightarrow> string \<Rightarrow> world \<Rightarrow> attempt" where
  "classify clock line w =
     foldl (\<lambda>a entry. case a of Inl r \<Rightarrow> Inl r | Inr w' \<Rightarrow> try_entry clock line entry w')
       (Inr w) INTERESTING"

text \<open>What an entry whose handler cannot raise does to the world.\<close>

definition on_match :: "clock \<Rightarrow> string \<Rightarrow> regex \<Rightarrow> effect \<Rightarrow> world \<Rightarrow> world" where
  "on_match clock line r h w = (case re_match r line of None \<Rightarrow> w | Some m \<Rightarrow> h clock m w)"

section \<open>The supervisor: \<^verbatim>\<open>watch_items\<close>\<close>

text \<open>
  The supervisor runs against an environment it does not control. One \<open>tick\<close> gives what
  the environment answers during one evaluation of the \<^verbatim>\<open>while\<close> condition and one run of
  the loop body: what \<^verbatim>\<open>u_utils.keep_going\<close> returns (or that the call raises
  \<^verbatim>\<open>serial.SerialException\<close> or \<^verbatim>\<open>EOFError\<close>, the two exceptions the function catches),
  whether a started \<^verbatim>\<open>delayed_finish\<close> timer has gone off since the last look at
  \<^verbatim>\<open>results["finished"]\<close>, and what \<^verbatim>\<open>read_queue.get(timeout=0.5)\<close> gives.
  The queue is filled by the pump thread; its content is therefore part of the environment.
\<close>

datatype 'a call = Returns 'a | Raises

datatype dequeue = Line string | Empty

record tick =
  keep_going :: "bool call"
  fired :: bool
  got :: dequeue

text \<open>
  Why the loop is left: the conjunct of the \<^verbatim>\<open>while\<close> condition that was false, or an
  exception, \<open>Raised\<close> when it is one of the two that the function catches, \<open>Escaped\<close> when
  it is not; \<open>Watching\<close> when the ticks given so far have not ended the loop.
\<close>

datatype exit =
  Watching | Cancelled | Finished | GuardExpired | InactivityExpired | Raised | Escaped error

text \<open>The two notices that the branches after the loop print.\<close>

datatype notice = GuardTimerExpired | InactivityTimerExpired

text \<open>
  \<^verbatim>\<open>not budget or (time() - since < budget)\<close>: a budget of None or 0 is falsy and the clock
  is then not read.
\<close>

definition in_budget :: "clock \<Rightarrow> int option \<Rightarrow> real \<Rightarrow> world \<Rightarrow> bool \<times> world" where
  "in_budget clock budget since w =
     (case budget of
        None \<Rightarrow> (True, w)
      | Some b \<Rightarrow>
          if b = 0 then (True, w)
          else (clock (reads w) - since < real_of_int b, w\<lparr>reads := Suc (reads w)\<rparr>))"

text \<open>\<^verbatim>\<open>budget and (time() - since >= budget)\<close>, the test after the loop.\<close>

definition expired :: "clock \<Rightarrow> int option \<Rightarrow> real \<Rightarrow> world \<Rightarrow> bool \<times> world" where
  "expired clock budget since w =
     (case budget of
        None \<Rightarrow> (False, w)
      | Some b \<Rightarrow>
          if b = 0 then (False, w)
          else (clock (reads w) - since \<ge> real_of_int b, w\<lparr>reads := Suc (reads w)\<rparr>))"

record session =
  guard_time_seconds :: "int option"
  inactivity_time_seconds :: "int option"

text \<open>
  The \<^verbatim>\<open>while\<close> loop. Its arguments are the local \<^verbatim>\<open>start_time\<close>, the ticks still to
  come, and the pair of the local \<^verbatim>\<open>last_activity_time\<close> and the world.
\<close>

fun watch_loop ::
  "session \<Rightarrow> clock \<Rightarrow> real \<Rightarrow> tick list \<Rightarrow> real \<times> world \<Rightarrow> exit \<times> real \<times> world" where
  "watch_loop cfg clock start_time [] (last_activity_time, w) =
     (Watching, last_activity_time, w)"
| "watch_loop cfg clock start_time (tk # tks) (last_activity_time, w) =
     (case keep_going tk of
        Raises \<Rightarrow> (Raised, last_activity_time, w)
      | Returns going \<Rightarrow>
          if \<not> going then (Cancelled, last_activity_time, w)
          else
            let w0 = (if fired tk \<and> 0 < timers w then delayed_finish w else w) in
            if finished w0 then (Finished, last_activity_time, w0)
            else
              let (in_guard, w1) = in_budget clock (guard_time_seconds cfg) start_time w0 in
              if \<not> in_guard then (GuardExpired, last_activity_time, w1)
              else
                let (active, w2) =
                      in_budget clock (inactivity_time_seconds cfg) last_activity_time w1 in
                if \<not> active then (InactivityExpired, last_activity_time, w2)
                else
                  (case got tk of
                     Empty \<Rightarrow> watch_loop cfg clock start_time tks (last_activity_time, w2)
                   | Line line \<Rightarrow>
                       (case classify clock line
                               (w2\<lparr>reads := Suc (reads w2), seen := seen w2 @ [line]\<rparr>) of
                          Inl (e, w3) \<Rightarrow> (Escaped e, clock (reads w2), w3)
                        | Inr w3 \<Rightarrow>
                            watch_loop cfg clock start_time tks (clock (reads w2), w3))))"

record verdict =
  return_value :: int
  cause :: exit
  printed :: "notice option"
  final :: world

text \<open>
  The statements after the loop, inside the \<^verbatim>\<open>try\<close>: they run when the loop was left
  through its condition.
\<close>

definition after_loop ::
  "session \<Rightarrow> clock \<Rightarrow> real \<Rightarrow> exit \<Rightarrow> real \<times> world \<Rightarrow> verdict" where
  "after_loop cfg clock start_time ex st =
     (let (last_activity_time, w) = st;
          w1 = w\<lparr>finished := True\<rparr>;
          w2 = w1\<lparr>joined := True\<rparr>;
          (guard_out, w3) = expired clock (guard_time_seconds cfg) start_time w2
      in if guard_out
         then \<lparr>return_value = - 1, cause = ex, printed = Some GuardTimerExpired, final = w3\<rparr>
         else
           let (idle_out, w4) =
                 expired clock (inactivity_time_seconds cfg) last_activity_time w3
           in if idle_out
              then \<lparr>return_value = - 1, cause = ex, printed = Some InactivityTimerExpired,
                    final = w4\<rparr>
              else \<lparr>return_value = items_failed w4 + reboots w4, cause = ex,
                    printed = None, final = w4\<rparr>)"

text \<open>
  \<^verbatim>\<open>watch_items\<close>: None when the ticks given do not end the loop (the function has not
  returned yet); otherwise either what it returns and the world it leaves, or the
  exception that leaves it uncaught and the world at that moment. The \<^verbatim>\<open>except\<close> clause
  returns the initial \<^verbatim>\<open>return_value\<close> of -1.
\<close>

definition watch_items ::
  "session \<Rightarrow> clock \<Rightarrow> tick list \<Rightarrow> world \<Rightarrow> ((error \<times> world) + verdict) option" where
  "watch_items cfg clock ticks w =
     (let start_time = clock (reads w);
          last_activity_time = clock (Suc (reads w));
          w0 = w\<lparr>reads := Suc (Suc (reads w))\<rparr>
      in case watch_loop cfg clock start_time ticks (last_activity_time, w0) of
           (Watching, st) \<Rightarrow> None
         | (Raised, st) \<Rightarrow>
             Some (Inr \<lparr>return_value = - 1, cause = Raised, printed = None, final = snd st\<rparr>)
         | (Escaped e, st) \<Rightarrow> Some (Inl (e, snd st))
         | (ex, st) \<Rightarrow> Some (Inr (after_loop cfg clock start_time ex st)))"

section \<open>\<^verbatim>\<open>main\<close> and the report\<close>

text \<open>\<^verbatim>\<open>str\<close> of an integer, as \<^verbatim>\<open>format\<close> renders it.\<close>

function dec :: "nat \<Rightarrow> string" where
  "dec n = (if n < 10 then [char_of (48 + n)] else dec (n div 10) @ [char_of (48 + n mod 10)])"
  by pat_completeness auto
termination
  by (relation "measure id") auto

definition py_str :: "int \<Rightarrow> string" where
  "py_str i = (if i < 0 then CHR ''-'' # dec (nat (- i)) else dec (nat i))"

definition quoted :: "string \<Rightarrow> string" where
  "quoted s = [CHR 0x22] @ s @ [CHR 0x22]"

definition testsuite_open :: "string \<Rightarrow> int \<Rightarrow> int \<Rightarrow> string" where
  "testsuite_open name tests failures =
     ''<testsuite name='' @ quoted name @ '' tests='' @ quoted (py_str tests) @
     '' failures='' @ quoted (py_str failures) @ ''>'' @ [CHR 0x0A]"

definition testcase :: "string \<times> int \<times> string \<Rightarrow> string" where
  "testcase outcome =
     (case outcome of (name, duration, status) \<Rightarrow>
        ''    <testcase classname='' @ quoted ''ubxlib_tests'' @ '' name='' @ quoted name @
        '' time='' @ quoted (py_str duration) @ '' status='' @ quoted status @
        ''></testcase>'' @ [CHR 0x0A])"

definition testsuite_close :: string where
  "testsuite_close = ''</testsuite>'' @ [CHR 0x0A]"

text \<open>
  The arguments of \<^verbatim>\<open>main\<close>. \<open>instance\<close> is the list of integers naming the instance, or
  None; \<open>get_instance_text\<close> stands for \<^verbatim>\<open>u_utils.get_instance_text\<close>, which is not part
  of these sources. \<open>report_handle\<close> says whether a \<^verbatim>\<open>test_report_handle\<close> was passed.
  \<open>send_first\<close> is None when \<^verbatim>\<open>send_string\<close> is None and otherwise what
  \<^verbatim>\<open>esp32_send_first\<close> returns; that function reads the clock once when it succeeds.
\<close>

record arguments = session +
  "instance" :: "int list option"
  get_instance_text :: "int list \<Rightarrow> string"
  report_handle :: bool
  send_first :: "bool option"

definition initial_results :: world where
  "initial_results =
     \<lparr>finished = False, reboots = 0, items_run = 0, items_failed = 0, items_ignored = 0,
      overall_start_time = 0, last_start_time = 0, outcomes = [],
      reads = 0, timers = 0, seen = [], joined = False\<rparr>"

text \<open>
  The lines \<^verbatim>\<open>main\<close> writes to the report handle, one list element for each call of
  \<^verbatim>\<open>write\<close>; the guard is \<^verbatim>\<open>if test_report_handle and instance\<close>, and an empty list is
  falsy like None.
\<close>

definition write_report :: "('a arguments_scheme) \<Rightarrow> world \<Rightarrow> string list" where
  "write_report args w =
     (case instance args of
        None \<Rightarrow> []
      | Some inst \<Rightarrow>
          if report_handle args \<and> inst \<noteq> []
          then [testsuite_open (''instance '' @ get_instance_text args inst)
                  (items_run w) (items_failed w)]
               @ map testcase (outcomes w)
               @ [testsuite_close]
          else [])"

record ending =
  code :: int
  report :: "string list"
  supervised :: "verdict option"
  results_left :: world

text \<open>
  \<^verbatim>\<open>main\<close>: None while \<^verbatim>\<open>watch_items\<close> has not returned. When the handshake fails
  \<^verbatim>\<open>watch_items\<close> is not called and the return value stays -1. An exception that leaves
  \<^verbatim>\<open>watch_items\<close> leaves \<^verbatim>\<open>main\<close> too, before the report is written.
\<close>

definition main ::
  "arguments \<Rightarrow> clock \<Rightarrow> tick list \<Rightarrow> ((error \<times> world) + ending) option" where
  "main args clock ticks =
     (let w0 = initial_results\<lparr>last_start_time := clock 0, reads := 1\<rparr>
      in case send_first args of
           Some False \<Rightarrow>
             Some (Inr \<lparr>code = - 1, report = write_report args w0, supervised = None,
                        results_left = w0\<rparr>)
         | handshake \<Rightarrow>
             let w1 = (if handshake = None then w0 else w0\<lparr>reads := Suc (reads w0)\<rparr>);
                 w2 = w1\<lparr>overall_start_time := clock (reads w1), reads := Suc (reads w1)\<rparr>
             in (case watch_items (session.truncate args) clock ticks w2 of
                   None \<Rightarrow> None
                 | Some (Inl r) \<Rightarrow> Some (Inl r)
                 | Some (Inr v) \<Rightarrow>
                     Some (Inr \<lparr>code = return_value v, report = write_report args (final v),
                                supervised = Some v, results_left = final v\<rparr>)))"

section \<open>The transport reader: \<^verbatim>\<open>pwar_readline\<close> on a serial port\<close>

text \<open>
  The branch for \<^verbatim>\<open>CONNECTION_SERIAL\<close> and \<^verbatim>\<open>CONNECTION_RTT\<close>. The handle is the list
  of what the coming calls of \<^verbatim>\<open>in_handle.read(1)\<close> return: a byte, or nothing (the empty
  bytes object, when the read timed out); once the list is used up every read returns
  nothing. A byte of 128 or more makes \<^verbatim>\<open>decode('ascii')\<close> raise
  \<^verbatim>\<open>UnicodeDecodeError\<close>, which the function swallows, returning the line as it stands.
\<close>

type_synonym handle = "char option list"

definition is_space :: "char \<Rightarrow> bool" where
  "is_space c = (of_char c \<in> {9, 10, 11, 12, 13, 28, 29, 30, 31, 32 :: nat})"

definition strip :: "string \<Rightarrow> string" where
  "strip s = rev (dropWhile is_space (rev (dropWhile is_space s)))"

definition ascii :: "char \<Rightarrow> bool" where
  "ascii c = ((of_char c :: nat) < 128)"

fun read_loop :: "string \<Rightarrow> handle \<Rightarrow> string \<Rightarrow> string option \<times> handle" where
  "read_loop terminator [] line = (None, [])"
| "read_loop terminator (None # h) line = (None, h)"
| "read_loop terminator (Some b # h) line =
     (if \<not> ascii b then (Some line, h)
      else if [b] = terminator then (Some (strip line), h)
      else read_loop terminator h (line @ [b]))"

definition pwar_readline :: "handle \<Rightarrow> string option \<Rightarrow> string option \<times> handle" where
  "pwar_readline in_handle terminator =
     read_loop (case terminator of None \<Rightarrow> [CHR 0x0A] | Some t \<Rightarrow> t) in_handle []"

section \<open>Sample environments\<close>

text \<open>
  A tick in which the run is to go on and no timer goes off, a session with neither budget,
  the arguments of a call of \<^verbatim>\<open>main\<close> with no instance, no report and no handshake, and a
  summary line whose first number has 4301 digits.
\<close>

definition going :: "dequeue \<Rightarrow> tick" where
  "going d = \<lparr>keep_going = Returns True, fired = False, got = d\<rparr>"

definition untimed :: session where
  "untimed = \<lparr>guard_time_seconds = None, inactivity_time_seconds = None\<rparr>"

definition bare :: arguments where
  "bare = \<lparr>guard_time_seconds = None, inactivity_time_seconds = None, instance = None,
           get_instance_text = (\<lambda>inst. []), report_handle = False, send_first = None\<rparr>"

definition long_summary :: string where
  "long_summary = replicate 4301 CHR ''1'' @ '' Tests 0 Failures 0 Ignored''"

section \<open>What the summary pattern captures\<close>

lemma one_char_elem:
  "c' \<in> set (one_char p c) \<longleftrightarrow> (\<exists>x xs. rest c = x # xs \<and> p x \<and> c' = advance c)"
  by (cases "rest c") (auto simp: one_char_def)

lemma run_Star_elem:
  "c' \<in> set (run (Star r) c) \<longleftrightarrow>
     c' = c \<or> (\<exists>d \<in> set (run r c). length (rest d) < length (rest c) \<and> c' \<in> set (run (Star r) d))"
  by (subst run.simps(9)) (auto simp del: run.simps split: if_splits)

text \<open>A starred one-character pattern consumes characters of its class and captures nothing.\<close>

lemma run_Star_one_char:
  assumes r: "\<And>d. run r d = one_char p d"
  shows "c' \<in> set (run (Star r) c) \<Longrightarrow>
         \<exists>ds. rest c = ds @ rest c' \<and> pos c' = pos c + length ds \<and> groups c' = groups c \<and>
              (\<forall>x \<in> set ds. p x)"
proof (induction c rule: measure_induct_rule[of "\<lambda>c. length (rest c)"])
  case (less c)
  from less.prems have "c' = c \<or>
      (\<exists>d \<in> set (one_char p c). length (rest d) < length (rest c) \<and> c' \<in> set (run (Star r) d))"
    by (subst (asm) run_Star_elem) (simp only: r)
  then show ?case
  proof
    assume "c' = c"
    then show ?thesis by simp
  next
    assume "\<exists>d \<in> set (one_char p c). length (rest d) < length (rest c) \<and> c' \<in> set (run (Star r) d)"
    then obtain d where d: "d \<in> set (one_char p c)" "length (rest d) < length (rest c)"
      "c' \<in> set (run (Star r) d)" by blast
    from d(1) obtain x xs where x: "rest c = x # xs" "p x" "d = advance c"
      unfolding one_char_elem by blast
    from less.IH[OF d(2) d(3)] obtain ds where
      ds: "rest d = ds @ rest c'" "pos c' = pos d + length ds" "groups c' = groups d"
        "\<forall>x \<in> set ds. p x" by blast
    from x ds have "rest c = (x # ds) @ rest c' \<and> pos c' = pos c + length (x # ds) \<and>
        groups c' = groups c \<and> (\<forall>y \<in> set (x # ds). p y)"
      by (simp add: advance_def)
    then show ?thesis by blast
  qed
qed


lemma run_Plus_digit:
  assumes "c' \<in> set (run (Plus digit) c)"
  shows "\<exists>ds. ds \<noteq> [] \<and> list_all (\<lambda>x. (48 :: nat) \<le> of_char x \<and> (of_char x :: nat) \<le> 57) ds \<and>
              rest c = ds @ rest c' \<and> pos c' = pos c + length ds \<and> groups c' = groups c"
proof -
  let ?p = "\<lambda>x. (of_char CHR ''0'' :: nat) \<le> of_char x \<and> (of_char x :: nat) \<le> of_char CHR ''9''"
  have r: "\<And>d. run digit d = one_char ?p d" by (simp add: digit_def)
  from assms obtain d where d: "d \<in> set (run digit c)" "c' \<in> set (run (Star digit) d)"
    unfolding Plus_def run.simps(8) by (auto simp del: run.simps)
  from d(1) obtain x xs where x: "rest c = x # xs" "?p x" "d = advance c"
    unfolding r one_char_elem by blast
  from run_Star_one_char[of digit ?p, OF r d(2)] obtain ds where
    ds: "rest d = ds @ rest c'" "pos c' = pos d + length ds" "groups c' = groups d"
      "\<forall>y \<in> set ds. ?p y" by blast
  from x ds have "x # ds \<noteq> [] \<and>
      list_all (\<lambda>x. (48 :: nat) \<le> of_char x \<and> (of_char x :: nat) \<le> 57) (x # ds) \<and>
      rest c = (x # ds) @ rest c' \<and> pos c' = pos c + length (x # ds) \<and> groups c' = groups c"
    by (simp add: advance_def list_all_iff)
  then show ?thesis by blast
qed

text \<open>A literal and a starred character consume input and capture nothing.\<close>

lemma run_lit:
  "c' \<in> set (run (lit s) c) \<Longrightarrow> groups c' = groups c"
proof (induction s arbitrary: c)
  case Nil
  then show ?case by (simp add: lit_def)
next
  case (Cons a s)
  from Cons.prems obtain d where d: "d \<in> set (one_char (\<lambda>x. x = a) c)"
      "c' \<in> set (run (foldr (\<lambda>a r. Seq (Chr a) r) s Eps) d)"
    unfolding lit_def foldr.simps o_apply run.simps(8) run.simps(2) by (auto simp del: run.simps)
  then have d2: "c' \<in> set (run (lit s) d)" by (simp only: lit_def)
  from d(1) have "groups d = groups c" by (auto simp: one_char_elem advance_def)
  with Cons.IH[OF d2] show ?case by simp
qed

lemma run_Star_Chr:
  "c' \<in> set (run (Star (Chr a)) c) \<Longrightarrow> groups c' = groups c"
proof -
  assume a: "c' \<in> set (run (Star (Chr a)) c)"
  have "\<And>d. run (Chr a) d = one_char (\<lambda>x. x = a) d" by simp
  from run_Star_one_char[of "Chr a" "\<lambda>x. x = a", OF this a] show ?thesis by blast
qed

lemma run_Chr:
  "c' \<in> set (run (Chr a) c) \<Longrightarrow> groups c' = groups c"
  by (auto simp: one_char_elem advance_def)

lemma run_Group_Plus_digit:
  assumes "c' \<in> set (run (Group n (Plus digit)) c)"
  shows "\<exists>ds. ds \<noteq> [] \<and> list_all (\<lambda>x. (48 :: nat) \<le> of_char x \<and> (of_char x :: nat) \<le> 57) ds \<and>
              groups c' = (groups c)(n \<mapsto> ds)"
proof -
  from assms obtain d where d: "d \<in> set (run (Plus digit) c)" "c' = capture n c d"
    unfolding run.simps(11) by (auto simp del: run.simps)
  from run_Plus_digit[OF d(1)] obtain ds where
    ds: "ds \<noteq> []" "list_all (\<lambda>x. (48 :: nat) \<le> of_char x \<and> (of_char x :: nat) \<le> 57) ds"
      "rest c = ds @ rest d" "pos d = pos c + length ds" "groups d = groups c" by blast
  from d(2) ds have "groups c' = (groups c)(n \<mapsto> ds)" by (simp add: capture_def)
  with ds show ?thesis by blast
qed


lemma run_Seq_elem:
  "c' \<in> set (run (Seq r1 r2) c) \<longleftrightarrow> (\<exists>d \<in> set (run r1 c). c' \<in> set (run r2 d))"
  unfolding run.simps(8) by (auto simp del: run.simps)

lemma run_Group_Bol_Plus_digit:
  assumes "c' \<in> set (run (Group n (Seq Bol (Plus digit))) c)"
  shows "\<exists>ds. ds \<noteq> [] \<and> list_all (\<lambda>x. (48 :: nat) \<le> of_char x \<and> (of_char x :: nat) \<le> 57) ds \<and>
              groups c' = (groups c)(n \<mapsto> ds)"
proof -
  from assms obtain d where d: "d \<in> set (run (Seq Bol (Plus digit)) c)" "c' = capture n c d"
    unfolding run.simps(11) by (auto simp del: run.simps)
  from d(1) have "d \<in> set (run (Plus digit) c)"
    unfolding run_Seq_elem run.simps(6) by (auto simp del: run.simps split: if_splits)
  from run_Plus_digit[OF this] obtain ds where
    ds: "ds \<noteq> []" "list_all (\<lambda>x. (48 :: nat) \<le> of_char x \<and> (of_char x :: nat) \<le> 57) ds"
      "rest c = ds @ rest d" "pos d = pos c + length ds" "groups d = groups c" by blast
  from d(2) ds have "groups c' = (groups c)(n \<mapsto> ds)" by (simp add: capture_def)
  with ds show ?thesis by blast
qed

text \<open>
  Every match of the summary pattern captures three non-empty strings of decimal digits:
  \<open>py_int\<close> is only ever applied to such strings.
\<close>

lemma re_finish_captures_digits:
  assumes "re_match re_finish line = Some m"
  shows "list_all (\<lambda>n. mgroup m n \<noteq> [] \<and>
            list_all (\<lambda>x. (48 :: nat) \<le> of_char x \<and> (of_char x :: nat) \<le> 57) (mgroup m n))
           [1, 2, 3]"
proof -
  define c0 where "c0 = \<lparr>pos = 0, rest = line, groups = Map.empty\<rparr>"
  from assms obtain cf where cf: "cf \<in> set (run re_finish c0)" "m = groups cf"
    by (auto simp: re_match_def c0_def split: list.splits simp del: run.simps)
  from cf(1) obtain c1 c2 c3 c4 c5 c6 c7 c8 c9 c10 where
    s: "c1 \<in> set (run (Group 1 (Seq Bol (Plus digit))) c0)"
       "c2 \<in> set (run (lit '' Test'') c1)"
       "c3 \<in> set (run (Star (Chr CHR ''s'')) c2)"
       "c4 \<in> set (run (Chr CHR '' '') c3)"
       "c5 \<in> set (run (Group 2 (Plus digit)) c4)"
       "c6 \<in> set (run (lit '' Failure'') c5)"
       "c7 \<in> set (run (Star (Chr CHR ''s'')) c6)"
       "c8 \<in> set (run (Chr CHR '' '') c7)"
       "c9 \<in> set (run (Group 3 (Plus digit)) c8)"
       "c10 \<in> set (run (lit '' Ignored'') c9)"
       "cf \<in> set (run Eps c10)"
    unfolding re_finish_def seqs_def foldr.simps o_apply id_apply run_Seq_elem by blast
  from run_Group_Bol_Plus_digit[OF s(1)] obtain d1 where
    d1: "d1 \<noteq> []" "list_all (\<lambda>x. (48 :: nat) \<le> of_char x \<and> (of_char x :: nat) \<le> 57) d1"
      "groups c1 = (groups c0)(1 \<mapsto> d1)" by blast
  from run_Group_Plus_digit[OF s(5)] obtain d2 where
    d2: "d2 \<noteq> []" "list_all (\<lambda>x. (48 :: nat) \<le> of_char x \<and> (of_char x :: nat) \<le> 57) d2"
      "groups c5 = (groups c4)(2 \<mapsto> d2)" by blast
  from run_Group_Plus_digit[OF s(9)] obtain d3 where
    d3: "d3 \<noteq> []" "list_all (\<lambda>x. (48 :: nat) \<le> of_char x \<and> (of_char x :: nat) \<le> 57) d3"
      "groups c9 = (groups c8)(3 \<mapsto> d3)" by blast
  have "groups c4 = groups c1"
    using run_lit[OF s(2)] run_Star_Chr[OF s(3)] run_Chr[OF s(4)] by simp
  moreover have "groups c8 = groups c5"
    using run_lit[OF s(6)] run_Star_Chr[OF s(7)] run_Chr[OF s(8)] by simp
  moreover have "groups cf = groups c9"
    using run_lit[OF s(10)] s(11) by simp
  ultimately have "m = (groups c0)(1 \<mapsto> d1, 2 \<mapsto> d2, 3 \<mapsto> d3)"
    using cf(2) d1(3) d2(3) d3(3) by simp
  with d1 d2 d3 show ?thesis by (simp add: mgroup_def)
qed


text \<open>
  The other direction, for a line that starts with digits: the starred digit class prefers
  to take them all.
\<close>

lemma run_Star_digit_greedy:
  assumes "list_all (\<lambda>x. (48 :: nat) \<le> of_char x \<and> (of_char x :: nat) \<le> 57) ds"
    and "t = [] \<or> \<not> ((48 :: nat) \<le> of_char (hd t) \<and> (of_char (hd t) :: nat) \<le> 57)"
    and "rest c = ds @ t"
  shows "\<exists>xs. run (Star digit) c = c\<lparr>pos := pos c + length ds, rest := t\<rparr> # xs"
  using assms(1,3)
proof (induction ds arbitrary: c)
  case Nil
  then have "run digit c = []"
    using assms(2) by (cases t) (auto simp: digit_def one_char_def)
  then have "run (Star digit) c = [c]"
    using run.simps(9)[of digit c] by (simp del: run.simps)
  moreover have "c\<lparr>pos := pos c + length ([] :: string), rest := t\<rparr> = c"
    using Nil by simp
  ultimately show ?case by (simp del: run.simps)
next
  case (Cons d ds)
  from Cons.prems have d: "run digit c = [advance c]"
    by (simp add: digit_def one_char_def)
  have r: "rest (advance c) = ds @ t" using Cons.prems by (simp add: advance_def)
  from Cons.prems have "list_all (\<lambda>x. (48 :: nat) \<le> of_char x \<and> (of_char x :: nat) \<le> 57) ds"
    by simp
  from Cons.IH[OF this r] obtain xs where
    xs: "run (Star digit) (advance c) =
           (advance c)\<lparr>pos := pos (advance c) + length ds, rest := t\<rparr> # xs" by blast
  have "run (Star digit) c = run (Star digit) (advance c) @ [c]"
    using Cons.prems(2) run.simps(9)[of digit c] by (simp del: run.simps add: d advance_def)
  with xs have "run (Star digit) c =
      (advance c)\<lparr>pos := pos (advance c) + length ds, rest := t\<rparr> # (xs @ [c])"
    by (simp del: run.simps)
  moreover have "(advance c)\<lparr>pos := pos (advance c) + length ds, rest := t\<rparr>
                   = c\<lparr>pos := pos c + length (d # ds), rest := t\<rparr>"
    by (simp add: advance_def)
  ultimately show ?case by metis
qed

text \<open>What follows the first number, on the tail of the sample line.\<close>

lemma run_summary_tail:
  "map groups (run (seqs [lit '' Test'', Star (Chr CHR ''s''), Chr CHR '' '', Group 2 (Plus digit),
          lit '' Failure'', Star (Chr CHR ''s''), Chr CHR '' '', Group 3 (Plus digit),
          lit '' Ignored''])
        \<lparr>pos = p, rest = '' Tests 0 Failures 0 Ignored'', groups = G\<rparr>)
   = [G(2 \<mapsto> ''0'', 3 \<mapsto> ''0'')]"
  by (simp add: seqs_def lit_def Plus_def digit_def one_char_def advance_def capture_def)

text \<open>
  A line made of digits and the tail \<^verbatim>\<open> Tests 0 Failures 0 Ignored\<close> matches the summary
  pattern, and the first group is the whole run of digits, however long.
\<close>

lemma re_finish_on_digits:
  assumes "ds \<noteq> []"
    and "list_all (\<lambda>x. (48 :: nat) \<le> of_char x \<and> (of_char x :: nat) \<le> 57) ds"
  shows "\<exists>m. re_match re_finish (ds @ '' Tests 0 Failures 0 Ignored'') = Some m \<and>
             mgroup m 1 = ds \<and> mgroup m 2 = ''0'' \<and> mgroup m 3 = ''0''"
proof -
  let ?tail = "'' Tests 0 Failures 0 Ignored''"
  let ?R = "seqs [lit '' Test'', Star (Chr CHR ''s''), Chr CHR '' '', Group 2 (Plus digit),
          lit '' Failure'', Star (Chr CHR ''s''), Chr CHR '' '', Group 3 (Plus digit),
          lit '' Ignored'']"
  define c0 where "c0 = \<lparr>pos = 0, rest = ds @ ?tail, groups = Map.empty\<rparr>"
  from assms obtain d ds' where ds: "ds = d # ds'"
    and dd: "(48 :: nat) \<le> of_char d \<and> (of_char d :: nat) \<le> 57"
    and ds': "list_all (\<lambda>x. (48 :: nat) \<le> of_char x \<and> (of_char x :: nat) \<le> 57) ds'"
    by (cases ds) auto
  have d1: "run digit c0 = [advance c0]"
    using dd by (simp add: digit_def one_char_def c0_def ds)
  have "rest (advance c0) = ds' @ ?tail" by (simp add: advance_def c0_def ds)
  from run_Star_digit_greedy[OF ds' _ this] obtain xs where
    xs: "run (Star digit) (advance c0) =
           (advance c0)\<lparr>pos := pos (advance c0) + length ds', rest := ?tail\<rparr> # xs"
    by auto
  define c1 where "c1 = \<lparr>pos = length ds, rest = ?tail, groups = Map.empty\<rparr>"
  have c1: "(advance c0)\<lparr>pos := pos (advance c0) + length ds', rest := ?tail\<rparr> = c1"
    by (simp add: advance_def c0_def c1_def ds)
  have plus: "run (Plus digit) c0 = c1 # xs"
    unfolding Plus_def run.simps(8) d1 using xs c1 by (simp del: run.simps)
  have "run (Seq Bol (Plus digit)) c0 = c1 # xs"
    unfolding run.simps(8) run.simps(6) using plus by (simp del: run.simps add: c0_def)
  then have g: "run (Group 1 (Seq Bol (Plus digit))) c0 = capture 1 c0 c1 # map (capture 1 c0) xs"
    unfolding run.simps(11) by (simp del: run.simps)
  have cap: "capture 1 c0 c1 = \<lparr>pos = length ds, rest = ?tail, groups = [1 \<mapsto> ds]\<rparr>"
    by (simp add: capture_def c0_def c1_def)
  from run_summary_tail[of "length ds" "[1 \<mapsto> ds]"] obtain cf where
    cf: "run ?R (capture 1 c0 c1) = [cf]" "groups cf = [1 \<mapsto> ds, 2 \<mapsto> ''0'', 3 \<mapsto> ''0'']"
    unfolding cap by (auto simp del: run.simps simp: map_eq_Cons_conv)
  have split: "re_finish = Seq (Group 1 (Seq Bol (Plus digit))) ?R"
    by (simp add: re_finish_def seqs_def)
  have "\<exists>ys. run re_finish c0 = cf # ys"
    unfolding split run.simps(8) g using cf(1) by (simp del: run.simps)
  then have "re_match re_finish (ds @ ?tail) = Some (groups cf)"
    by (auto simp del: run.simps simp: re_match_def c0_def)
  with cf(2) show ?thesis by (simp add: mgroup_def)
qed

section \<open>The classifier\<close>

lemma try_returning:
  "try_entry clock line (r, returning h) w = Inr (on_match clock line r h w)"
  by (simp add: try_entry_def returning_def on_match_def split: option.splits)

text \<open>Only the last entry of the table can raise, so the loop reaches it on every line.\<close>

lemma classify_steps:
  "classify clock line w =
     try_entry clock line (re_finish, finish_callback)
      (on_match clock line re_fail fail_callback
        (on_match clock line re_pass pass_callback
          (on_match clock line re_run run_callback
            (on_match clock line re_zephyr reboot_callback
              (on_match clock line re_hardfault reboot_callback
                (on_match clock line re_guru reboot_callback
                  (on_match clock line re_abort reboot_callback w)))))))"
  by (simp add: classify_def INTERESTING_def try_returning)

lemma foldl_absorb:
  "(\<And>x. g (Inl r) x = Inl r) \<Longrightarrow> foldl g (Inl r) xs = Inl r"
  by (induction xs) auto

lemma foldl_try_map_filter:
  "foldl (\<lambda>a entry. case a of Inl r \<Rightarrow> Inl r | Inr w' \<Rightarrow> try_entry clock line entry w') a es =
   foldl (\<lambda>a (m, h). case a of Inl r \<Rightarrow> Inl r | Inr w' \<Rightarrow> h clock m w') a
     (List.map_filter (\<lambda>(r, h). map_option (\<lambda>m. (m, h)) (re_match r line)) es)"
  (is "foldl ?f a es = foldl ?g a (?sel es)")
proof (induction es arbitrary: a)
  case Nil
  then show ?case by (simp add: List.map_filter_simps)
next
  case (Cons e es)
  show ?case
  proof (cases a)
    case (Inl r)
    have "foldl ?f (Inl r) (e # es) = Inl r"
      by (rule foldl_absorb) simp
    moreover have "foldl ?g (Inl r) (?sel (e # es)) = Inl r"
      by (rule foldl_absorb) (simp add: case_prod_beta)
    ultimately show ?thesis unfolding Inl by (rule trans[OF _ sym])
  next
    case (Inr u)
    obtain r h where e: "e = (r, h)" by (cases e)
    show ?thesis
    proof (cases "re_match r line")
      case None
      then show ?thesis
        using Cons.IH[of "Inr u"] by (simp add: Inr e try_entry_def List.map_filter_simps)
    next
      case (Some m)
      then show ?thesis
        using Cons.IH[of "h clock m u"] by (simp add: Inr e try_entry_def List.map_filter_simps)
    qed
  qed
qed

subsection \<open>What an entry does, field by field\<close>

lemma on_reboot_fields [simp]:
  "reads (on_match clock line r reboot_callback u) = reads u"
  "last_start_time (on_match clock line r reboot_callback u) = last_start_time u"
  "outcomes (on_match clock line r reboot_callback u) = outcomes u"
  "items_run (on_match clock line r reboot_callback u) = items_run u"
  "items_failed (on_match clock line r reboot_callback u) = items_failed u"
  "items_ignored (on_match clock line r reboot_callback u) = items_ignored u"
  "finished (on_match clock line r reboot_callback u) = finished u"
  "seen (on_match clock line r reboot_callback u) = seen u"
  "joined (on_match clock line r reboot_callback u) = joined u"
  "reboots (on_match clock line r reboot_callback u) =
     (if re_match r line = None then reboots u else reboots u + 1)"
  by (simp_all add: on_match_def reboot_callback_def split: option.splits)

lemma on_run_fields [simp]:
  "reads (on_match clock line re_run run_callback u) =
     (if re_match re_run line = None then reads u else Suc (reads u))"
  "last_start_time (on_match clock line re_run run_callback u) =
     (if re_match re_run line = None then last_start_time u else clock (reads u))"
  "outcomes (on_match clock line re_run run_callback u) = outcomes u"
  "items_run (on_match clock line re_run run_callback u) =
     (if re_match re_run line = None then items_run u else items_run u + 1)"
  "items_failed (on_match clock line re_run run_callback u) = items_failed u"
  "items_ignored (on_match clock line re_run run_callback u) = items_ignored u"
  "finished (on_match clock line re_run run_callback u) = finished u"
  "seen (on_match clock line re_run run_callback u) = seen u"
  "joined (on_match clock line re_run run_callback u) = joined u"
  "reboots (on_match clock line re_run run_callback u) = reboots u"
  by (simp_all add: on_match_def run_callback_def split: option.splits)

lemma on_pass_fields [simp]:
  "reads (on_match clock line re_pass pass_callback u) =
     (if re_match re_pass line = None then reads u else Suc (reads u))"
  "last_start_time (on_match clock line re_pass pass_callback u) = last_start_time u"
  "outcomes (on_match clock line re_pass pass_callback u) =
     (case re_match re_pass line of None \<Rightarrow> outcomes u
      | Some m \<Rightarrow> outcomes u @ [(mgroup m 1, \<lceil>clock (reads u) - last_start_time u\<rceil>, ''PASS'')])"
  "items_run (on_match clock line re_pass pass_callback u) = items_run u"
  "items_failed (on_match clock line re_pass pass_callback u) = items_failed u"
  "items_ignored (on_match clock line re_pass pass_callback u) = items_ignored u"
  "finished (on_match clock line re_pass pass_callback u) = finished u"
  "seen (on_match clock line re_pass pass_callback u) = seen u"
  "joined (on_match clock line re_pass pass_callback u) = joined u"
  "reboots (on_match clock line re_pass pass_callback u) = reboots u"
  by (simp_all add: on_match_def pass_callback_def record_outcome_def Let_def
        split: option.splits)

lemma on_fail_fields [simp]:
  "reads (on_match clock line re_fail fail_callback u) =
     (if re_match re_fail line = None then reads u else Suc (reads u))"
  "last_start_time (on_match clock line re_fail fail_callback u) = last_start_time u"
  "outcomes (on_match clock line re_fail fail_callback u) =
     (case re_match re_fail line of None \<Rightarrow> outcomes u
      | Some m \<Rightarrow> outcomes u @ [(mgroup m 1, \<lceil>clock (reads u) - last_start_time u\<rceil>, ''FAIL'')])"
  "items_run (on_match clock line re_fail fail_callback u) = items_run u"
  "items_failed (on_match clock line re_fail fail_callback u) =
     (if re_match re_fail line = None then items_failed u else items_failed u + 1)"
  "items_ignored (on_match clock line re_fail fail_callback u) = items_ignored u"
  "finished (on_match clock line re_fail fail_callback u) = finished u"
  "seen (on_match clock line re_fail fail_callback u) = seen u"
  "joined (on_match clock line re_fail fail_callback u) = joined u"
  "reboots (on_match clock line re_fail fail_callback u) = reboots u"
  by (simp_all add: on_match_def fail_callback_def record_outcome_def Let_def
        split: option.splits)

text \<open>The summary entry: what it never touches, when it returns and when it raises.\<close>

lemma on_finish_kept [simp]:
  "last_start_time (left_by (try_entry clock line (re_finish, finish_callback) u)) = last_start_time u"
  "outcomes (left_by (try_entry clock line (re_finish, finish_callback) u)) = outcomes u"
  "seen (left_by (try_entry clock line (re_finish, finish_callback) u)) = seen u"
  "joined (left_by (try_entry clock line (re_finish, finish_callback) u)) = joined u"
  "reboots (left_by (try_entry clock line (re_finish, finish_callback) u)) = reboots u"
  by (simp_all add: try_entry_def finish_callback_def left_by_def Let_def
        split: option.splits sum.splits)

lemma try_finish_no_match:
  "re_match re_finish line = None \<Longrightarrow>
   try_entry clock line (re_finish, finish_callback) u = Inr u"
  by (simp add: try_entry_def)

lemma try_finish_returns:
  assumes "re_match re_finish line = Some m"
    and "\<forall>n \<in> {1, 2, 3}. length (mgroup m n) \<le> int_max_str_digits"
  shows "try_entry clock line (re_finish, finish_callback) u =
           Inr (u\<lparr>reads := Suc (reads u), items_run := decimal (mgroup m 1),
                  items_failed := decimal (mgroup m 2), items_ignored := decimal (mgroup m 3),
                  finished := True\<rparr>)"
  using assms by (simp add: try_entry_def finish_callback_def py_int_def Let_def)

lemma try_finish_raises:
  assumes "re_match re_finish line = Some m"
    and "\<exists>n \<in> {1, 2, 3}. int_max_str_digits < length (mgroup m n)"
  shows "\<exists>u'. try_entry clock line (re_finish, finish_callback) u = Inl (ValueError, u') \<and>
              finished u' = finished u \<and> items_ignored u' = items_ignored u"
  using assms by (auto simp: try_entry_def finish_callback_def py_int_def Let_def)

lemma try_finish_raised:
  assumes "try_entry clock line (re_finish, finish_callback) u = Inl (e, u')"
  shows "e = ValueError \<and> re_match re_finish line \<noteq> None \<and>
         finished u' = finished u \<and> items_ignored u' = items_ignored u"
  using assms
  by (auto simp: try_entry_def finish_callback_def py_int_def Let_def
        split: option.splits sum.splits if_splits)

lemma try_finish_returned:
  assumes "try_entry clock line (re_finish, finish_callback) u = Inr u'"
  shows "(case re_match re_finish line of
            None \<Rightarrow> u' = u
          | Some m \<Rightarrow>
              u' = u\<lparr>reads := Suc (reads u), items_run := decimal (mgroup m 1),
                      items_failed := decimal (mgroup m 2), items_ignored := decimal (mgroup m 3),
                      finished := True\<rparr>)"
  using assms
  by (auto simp: try_entry_def finish_callback_def py_int_def Let_def
        split: option.splits sum.splits if_splits)

subsection \<open>What a line does\<close>

lemma decimal_nonneg [simp]: "0 \<le> decimal s"
  by (simp add: decimal_def)

lemma classify_kept [simp]:
  "seen (left_by (classify clock line w)) = seen w"
  "joined (left_by (classify clock line w)) = joined w"
  by (simp_all add: classify_steps)

text \<open>
  The outcomes a line adds: one for a match of the PASS pattern, then one for a match of
  the FAIL pattern, each timed from the start time as the item-start entry left it.
\<close>

lemma classify_outcomes:
  "outcomes (left_by (classify clock line w)) =
     outcomes w
     @ (case re_match re_pass line of None \<Rightarrow> []
        | Some m \<Rightarrow>
            [(mgroup m 1,
              \<lceil>clock (if re_match re_run line = None then reads w else Suc (reads w))
                 - (if re_match re_run line = None then last_start_time w else clock (reads w))\<rceil>,
              ''PASS'')])
     @ (case re_match re_fail line of None \<Rightarrow> []
        | Some m \<Rightarrow>
            [(mgroup m 1,
              \<lceil>clock (if re_match re_pass line = None
                       then (if re_match re_run line = None then reads w else Suc (reads w))
                       else Suc (if re_match re_run line = None then reads w else Suc (reads w)))
                 - (if re_match re_run line = None then last_start_time w else clock (reads w))\<rceil>,
              ''FAIL'')])"
  by (auto simp: classify_steps split: option.splits)

lemma classify_last_start_time:
  "last_start_time (left_by (classify clock line w)) =
     (if re_match re_run line = None then last_start_time w else clock (reads w))"
  by (simp add: classify_steps)

lemma classify_returned:
  assumes "classify clock line w = Inr w'"
  shows "items_run w' =
           (case re_match re_finish line of
              None \<Rightarrow> (if re_match re_run line = None then items_run w else items_run w + 1)
            | Some m \<Rightarrow> decimal (mgroup m 1))"
    and "items_failed w' =
           (case re_match re_finish line of
              None \<Rightarrow> (if re_match re_fail line = None then items_failed w else items_failed w + 1)
            | Some m \<Rightarrow> decimal (mgroup m 2))"
    and "items_ignored w' =
           (case re_match re_finish line of
              None \<Rightarrow> items_ignored w
            | Some m \<Rightarrow> decimal (mgroup m 3))"
    and "finished w' = (re_match re_finish line \<noteq> None \<or> finished w)"
    and "0 \<le> reboots w \<Longrightarrow> 0 \<le> reboots w'"
  using try_finish_returned[OF assms[unfolded classify_steps]]
  by (auto split: option.splits)

lemma classify_raised:
  assumes "classify clock line w = Inl (e, u)"
  shows "e = ValueError \<and> re_match re_finish line \<noteq> None \<and>
         finished u = finished w \<and> items_ignored u = items_ignored w"
  using try_finish_raised[OF assms[unfolded classify_steps]] by simp

lemma classify_raises:
  assumes "re_match re_finish line = Some m"
    and "\<exists>n \<in> {1, 2, 3}. int_max_str_digits < length (mgroup m n)"
  shows "\<exists>u. classify clock line w = Inl (ValueError, u)"
  unfolding classify_steps using try_finish_raises[OF assms] by blast

lemma classify_counts_nonneg:
  assumes "classify clock line w = Inr w'" and "0 \<le> items_failed w" and "0 \<le> reboots w"
  shows "0 \<le> items_failed w' \<and> 0 \<le> reboots w'"
  using classify_returned(2,5)[OF assms(1)] assms(2,3) by (auto split: option.splits)

text \<open>The sample line with a number of 4301 digits is a summary line.\<close>

lemma long_summary_matches:
  "\<exists>m. re_match re_finish long_summary = Some m \<and>
       length (mgroup m 1) = 4301 \<and> mgroup m 2 = ''0'' \<and> mgroup m 3 = ''0''"
proof -
  have "list_all (\<lambda>x. (48 :: nat) \<le> of_char x \<and> (of_char x :: nat) \<le> 57)
          (replicate 4301 CHR ''1'')"
    by (simp add: list_all_iff)
  moreover have "replicate 4301 CHR ''1'' \<noteq> []" by simp
  ultimately obtain m where
    "re_match re_finish (replicate 4301 CHR ''1'' @ '' Tests 0 Failures 0 Ignored'') = Some m"
    "mgroup m 1 = replicate 4301 CHR ''1''" "mgroup m 2 = ''0''" "mgroup m 3 = ''0''"
    using re_finish_on_digits[of "replicate 4301 CHR ''1''"] by blast
  then show ?thesis by (auto simp: long_summary_def)
qed

text \<open>
  C1 says that the first pattern to match a line ends the search, so that a line dispatches
  at most one handler. The loop over the table has no \<^verbatim>\<open>break\<close>: the line
  \<^verbatim>\<open>abort: Running foo...\<close> matches the first pattern and the fifth, and both the reboot
  handler and the item-start handler run on it (one reboot counted, one item counted).
\<close>

theorem C1_counterexample:
  "re_match re_abort ''abort: Running foo...'' \<noteq> None \<and>
   (case classify (\<lambda>n. 0) ''abort: Running foo...'' initial_results of
      Inl r \<Rightarrow> False
    | Inr u \<Rightarrow> reboots u = 1 \<and> items_run u = 1)"
  by code_simp

text \<open>
  C1 as the code has it: the patterns are tried in the order of the table, every one of
  them against every line, and the handlers of exactly the entries whose pattern matches
  are called, in that order, each with its own match (a handler that raises ends the
  loop).
\<close>

theorem C1_every_match_dispatched:
  "classify clock line w =
   foldl (\<lambda>a (m, h). case a of Inl r \<Rightarrow> Inl r | Inr w' \<Rightarrow> h clock m w') (Inr w)
     (List.map_filter (\<lambda>(r, h). map_option (\<lambda>m. (m, h)) (re_match r line)) INTERESTING)"
  unfolding classify_def by (rule foldl_try_map_filter)

text \<open>
  C5 says that every summary line overwrites the three counters with the captured
  numbers. \<^verbatim>\<open>int()\<close> refuses a number of more than 4300 digits: on the sample line, whose
  first number has 4301, the handler raises \<^verbatim>\<open>ValueError\<close> at the first conversion, the
  run is not marked finished, and items_ignored keeps the 1 it held instead of the
  captured 0.
\<close>

theorem C5_counterexample:
  "map_option (\<lambda>m. (length (mgroup m 1), mgroup m 3)) (re_match re_finish long_summary)
     = Some (4301, ''0'') \<and>
   isl (classify (\<lambda>n. 0) long_summary (initial_results\<lparr>items_ignored := 1\<rparr>)) \<and>
   items_ignored (left_by (classify (\<lambda>n. 0) long_summary (initial_results\<lparr>items_ignored := 1\<rparr>)))
     = 1 \<and>
   \<not> finished (left_by (classify (\<lambda>n. 0) long_summary (initial_results\<lparr>items_ignored := 1\<rparr>)))"
proof -
  from long_summary_matches obtain m where m: "re_match re_finish long_summary = Some m"
    and g: "length (mgroup m 1) = 4301" "mgroup m 3 = ''0''" by blast
  from g(1) have "\<exists>n \<in> {1, 2, 3}. int_max_str_digits < length (mgroup m n)"
    by (simp add: int_max_str_digits_def)
  from classify_raises[OF m this] obtain u where
    u: "classify (\<lambda>n. 0) long_summary (initial_results\<lparr>items_ignored := 1\<rparr>) = Inl (ValueError, u)"
    by blast
  from classify_raised[OF u] have "items_ignored u = 1" "\<not> finished u"
    by (simp_all add: initial_results_def)
  with m g u show ?thesis by (simp add: left_by_def)
qed

text \<open>
  C5 as the code has it. On a line that matches the summary pattern with three numbers of
  at most 4300 digits each, the loop returns and the three counters hold exactly the three
  captured integers afterwards, whatever they held before and whatever other patterns the
  line matches: the summary entry is the last of the table.
\<close>

theorem C5_finish_overwrites:
  assumes "re_match re_finish line = Some m"
    and "\<forall>n \<in> {1, 2, 3}. length (mgroup m n) \<le> int_max_str_digits"
  shows "\<exists>w'. classify clock line w = Inr w' \<and>
           items_run w' = decimal (mgroup m 1) \<and>
           items_failed w' = decimal (mgroup m 2) \<and>
           items_ignored w' = decimal (mgroup m 3)"
  unfolding classify_steps try_finish_returns[OF assms] by simp

text \<open>
  C5 on the line of the example: the counters become 22, 1 and 0; a session that sees only
  this line returns 1, and one that saw a reboot marker before it returns 2.
\<close>

theorem C5_finish_overwrites_witness:
  "\<exists>m w'. re_match re_finish ''22 Tests 1 Failures 0 Ignored'' = Some m \<and>
     list_all (\<lambda>n. length (mgroup m n) \<le> int_max_str_digits) [1, 2, 3] \<and>
     classify (\<lambda>n. 0) ''22 Tests 1 Failures 0 Ignored''
       (initial_results\<lparr>items_run := 5, items_failed := 4, items_ignored := 3\<rparr>) = Inr w' \<and>
     items_run w' = 22 \<and> items_failed w' = 1 \<and> items_ignored w' = 0 \<and>
     map_option (map_sum fst return_value)
       (watch_items untimed (\<lambda>n. 0)
          [going (Line ''22 Tests 1 Failures 0 Ignored''), going Empty] initial_results)
       = Some (Inr 1) \<and>
     map_option (map_sum fst return_value)
       (watch_items untimed (\<lambda>n. 0)
          [going (Line ''abort()''), going (Line ''22 Tests 1 Failures 0 Ignored''),
           going Empty] initial_results)
       = Some (Inr 2)"
proof -
  have "map_option (\<lambda>m. (mgroup m 1, mgroup m 2, mgroup m 3))
          (re_match re_finish ''22 Tests 1 Failures 0 Ignored'') = Some (''22'', ''1'', ''0'')"
    by code_simp
  then obtain m where m: "re_match re_finish ''22 Tests 1 Failures 0 Ignored'' = Some m"
    and g: "mgroup m 1 = ''22''" "mgroup m 2 = ''1''" "mgroup m 3 = ''0''"
    by auto
  have d: "decimal ''22'' = 22" "decimal ''1'' = 1" "decimal ''0'' = 0"
    by (simp_all add: decimal_def)
  have fits: "\<forall>n \<in> {1, 2, 3}. length (mgroup m n) \<le> int_max_str_digits"
    using g by (simp add: int_max_str_digits_def)
  have r1: "map_option (map_sum fst return_value)
       (watch_items untimed (\<lambda>n. 0)
          [going (Line ''22 Tests 1 Failures 0 Ignored''), going Empty] initial_results)
       = Some (Inr 1)"
    by code_simp
  have r2: "map_option (map_sum fst return_value)
       (watch_items untimed (\<lambda>n. 0)
          [going (Line ''abort()''), going (Line ''22 Tests 1 Failures 0 Ignored''),
           going Empty] initial_results)
       = Some (Inr 2)"
    by code_simp
  from C5_finish_overwrites[OF m fits, of "\<lambda>n. 0"
         "initial_results\<lparr>items_run := 5, items_failed := 4, items_ignored := 3\<rparr>"]
       g d m fits r1 r2
  show ?thesis by (auto simp: list_all_iff)
qed

section \<open>The supervisor\<close>

lemma in_budget_cases:
  "snd (in_budget clock b s w) = w \<or> snd (in_budget clock b s w) = w\<lparr>reads := Suc (reads w)\<rparr>"
  by (simp add: in_budget_def split: option.splits)

lemma in_budget_finished [simp]:
  "finished (snd (in_budget clock b s w)) = finished w"
  by (simp add: in_budget_def split: option.splits)

text \<open>One turn of the loop, with the two budget tests named.\<close>

lemma watch_loop_step:
  "watch_loop cfg clock st (tk # tks) (la, w) =
     (case keep_going tk of
        Raises \<Rightarrow> (Raised, la, w)
      | Returns g \<Rightarrow>
         (let w0 = (if fired tk \<and> 0 < timers w then delayed_finish w else w);
              b1 = in_budget clock (guard_time_seconds cfg) st w0;
              b2 = in_budget clock (inactivity_time_seconds cfg) la (snd b1)
          in if \<not> g then (Cancelled, la, w)
             else if finished w0 then (Finished, la, w0)
             else if \<not> fst b1 then (GuardExpired, la, snd b1)
             else if \<not> fst b2 then (InactivityExpired, la, snd b2)
             else (case got tk of
                     Empty \<Rightarrow> watch_loop cfg clock st tks (la, snd b2)
                   | Line l \<Rightarrow>
                       (case classify clock l ((snd b2)\<lparr>reads := Suc (reads (snd b2)),
                                                       seen := seen (snd b2) @ [l]\<rparr>) of
                          Inl (e, w3) \<Rightarrow> (Escaped e, clock (reads (snd b2)), w3)
                        | Inr w3 \<Rightarrow>
                            watch_loop cfg clock st tks (clock (reads (snd b2)), w3)))))"
  by (simp add: Let_def case_prod_beta split: call.splits)

text \<open>
  An invariant of the loop: what holds at its start and is kept by a clock read, by a
  timer going off and by the classification of a dequeued line (returned or raised), holds
  when the loop is left, and the more so when it was left by an exception out of a state
  in which the run was not yet finished.
\<close>

lemma watch_loop_invariant:
  assumes "watch_loop cfg clock st ticks (la, w) = (ex, la', w')"
    and "I w"
    and line: "\<And>u l. I u \<Longrightarrow> \<not> finished u \<Longrightarrow>
                 I (left_by (classify clock l (u\<lparr>reads := Suc (reads u), seen := seen u @ [l]\<rparr>)))"
    and rd: "\<And>u. I u \<Longrightarrow> I (u\<lparr>reads := Suc (reads u)\<rparr>)"
    and fin: "\<And>u. I u \<Longrightarrow> I (delayed_finish u)"
  shows "I w'"
  using assms(1,2)
proof (induction ticks arbitrary: la w)
  case Nil
  then show ?case by simp
next
  case (Cons tk tks)
  show ?case
  proof (cases "keep_going tk")
    case Raises
    with Cons.prems show ?thesis by simp
  next
    case (Returns g)
    define w0 where "w0 = (if fired tk \<and> 0 < timers w then delayed_finish w else w)"
    define b1 where "b1 = in_budget clock (guard_time_seconds cfg) st w0"
    define b2 where "b2 = in_budget clock (inactivity_time_seconds cfg) la (snd b1)"
    define a where "a = classify clock
        (case got tk of Line l \<Rightarrow> l | Empty \<Rightarrow> [])
        ((snd b2)\<lparr>reads := Suc (reads (snd b2)),
                  seen := seen (snd b2) @ [case got tk of Line l \<Rightarrow> l | Empty \<Rightarrow> []]\<rparr>)"
    have i0: "I w0" using Cons.prems(2) fin by (simp add: w0_def)
    have i1: "I (snd b1)" using in_budget_cases[of clock "guard_time_seconds cfg" st w0] i0 rd
      by (auto simp: b1_def)
    have i2: "I (snd b2)"
      using in_budget_cases[of clock "inactivity_time_seconds cfg" la "snd b1"] i1 rd
      by (auto simp: b2_def)
    have f2: "finished (snd b2) = finished w0" by (simp add: b2_def b1_def)
    have step: "watch_loop cfg clock st (tk # tks) (la, w) =
        (if \<not> g then (Cancelled, la, w)
         else if finished w0 then (Finished, la, w0)
         else if \<not> fst b1 then (GuardExpired, la, snd b1)
         else if \<not> fst b2 then (InactivityExpired, la, snd b2)
         else (case got tk of
                 Empty \<Rightarrow> watch_loop cfg clock st tks (la, snd b2)
               | Line l \<Rightarrow>
                   (case a of
                      Inl (e, w3) \<Rightarrow> (Escaped e, clock (reads (snd b2)), w3)
                    | Inr w3 \<Rightarrow> watch_loop cfg clock st tks (clock (reads (snd b2)), w3))))"
      unfolding watch_loop_step w0_def b1_def b2_def a_def using Returns
      by (simp add: Let_def split: dequeue.splits)
    show ?thesis
    proof (cases "got tk")
      case Empty
      with Cons.prems(1) Cons.IH[OF _ i2] i0 i1 i2 Cons.prems(2) show ?thesis
        unfolding step by (auto split: if_splits)
    next
      case (Line l)
      have ia: "\<not> finished w0 \<Longrightarrow> I (left_by a)"
        using line[OF i2, of l] f2 Line by (simp add: a_def)
      show ?thesis
      proof (cases a)
        case (Inl r)
        with Line Cons.prems(1) i0 i1 i2 Cons.prems(2) ia show ?thesis
          unfolding step by (cases r) (auto simp: left_by_def split: if_splits)
      next
        case (Inr w3)
        with Line Cons.prems(1) Cons.IH[of "clock (reads (snd b2))" w3] i0 i1 i2 Cons.prems(2) ia
        show ?thesis
          unfolding step by (auto simp: left_by_def split: if_splits)
      qed
    qed
  qed
qed

lemma watch_loop_counts_nonneg:
  assumes "watch_loop cfg clock st ticks (la, w) = (ex, la', w')"
    and "0 \<le> items_failed w" "0 \<le> reboots w"
    and "\<forall>e. ex \<noteq> Escaped e"
  shows "0 \<le> items_failed w' \<and> 0 \<le> reboots w'"
proof -
  let ?I = "\<lambda>u :: world. 0 \<le> items_failed u \<and> 0 \<le> reboots u"
  have "(\<forall>e. ex \<noteq> Escaped e) \<longrightarrow> ?I w'"
    using assms(1-3)
  proof (induction ticks arbitrary: la w)
    case Nil
    then show ?case by simp
  next
    case (Cons tk tks)
    show ?case
    proof (cases "keep_going tk")
      case Raises
      with Cons.prems show ?thesis by simp
    next
      case (Returns g)
      define w0 where "w0 = (if fired tk \<and> 0 < timers w then delayed_finish w else w)"
      define b1 where "b1 = in_budget clock (guard_time_seconds cfg) st w0"
      define b2 where "b2 = in_budget clock (inactivity_time_seconds cfg) la (snd b1)"
      have i0: "?I w0" using Cons.prems(2,3) by (simp add: w0_def delayed_finish_def)
      have i1: "?I (snd b1)" using in_budget_cases[of clock "guard_time_seconds cfg" st w0] i0
        by (auto simp: b1_def)
      have i2: "?I (snd b2)"
        using in_budget_cases[of clock "inactivity_time_seconds cfg" la "snd b1"] i1
        by (auto simp: b2_def)
      have ih: "\<And>l w3. classify clock l ((snd b2)\<lparr>reads := Suc (reads (snd b2)),
                                   seen := seen (snd b2) @ [l]\<rparr>) = Inr w3 \<Longrightarrow>
            watch_loop cfg clock st tks (clock (reads (snd b2)), w3) = (ex, la', w') \<Longrightarrow>
            (\<forall>e. ex \<noteq> Escaped e) \<longrightarrow> ?I w'"
      proof -
        fix l w3
        assume c: "classify clock l ((snd b2)\<lparr>reads := Suc (reads (snd b2)),
                                   seen := seen (snd b2) @ [l]\<rparr>) = Inr w3"
          and lp: "watch_loop cfg clock st tks (clock (reads (snd b2)), w3) = (ex, la', w')"
        from classify_counts_nonneg[OF c] i2 have "?I w3" by simp
        with Cons.IH[OF lp] show "(\<forall>e. ex \<noteq> Escaped e) \<longrightarrow> ?I w'" by simp
      qed
      from Cons.prems(1) Cons.IH[of la "snd b2"] i0 i1 i2 Cons.prems(2,3) ih show ?thesis
        unfolding watch_loop_step Returns
        by (auto simp: Let_def w0_def[symmetric] b1_def[symmetric] b2_def[symmetric]
              split: if_splits dequeue.splits sum.splits prod.splits)
    qed
  qed
  with assms(4) show ?thesis by simp
qed

text \<open>The loop is left by an exception only out of a run not yet finished, and stays so.\<close>

lemma watch_loop_escaped:
  assumes "watch_loop cfg clock st ticks (la, w) = (Escaped e, la', w')"
  shows "e = ValueError \<and> \<not> finished w'"
  using assms
proof (induction ticks arbitrary: la w)
  case Nil
  then show ?case by simp
next
  case (Cons tk tks)
  show ?case
  proof (cases "keep_going tk")
    case Raises
    with Cons.prems show ?thesis by simp
  next
    case (Returns g)
    define w0 where "w0 = (if fired tk \<and> 0 < timers w then delayed_finish w else w)"
    define b1 where "b1 = in_budget clock (guard_time_seconds cfg) st w0"
    define b2 where "b2 = in_budget clock (inactivity_time_seconds cfg) la (snd b1)"
    have f2: "finished (snd b2) = finished w0" by (simp add: b2_def b1_def)
    have esc: "\<And>l x u. classify clock l ((snd b2)\<lparr>reads := Suc (reads (snd b2)),
                                   seen := seen (snd b2) @ [l]\<rparr>) = Inl (x, u) \<Longrightarrow>
                 \<not> finished w0 \<Longrightarrow> x = ValueError \<and> \<not> finished u"
      using classify_raised f2 by fastforce
    from Cons.prems Cons.IH esc show ?thesis
      unfolding watch_loop_step Returns
      by (auto simp: Let_def w0_def[symmetric] b1_def[symmetric] b2_def[symmetric]
            split: if_splits dequeue.splits sum.splits prod.splits)
  qed
qed

lemma watch_loop_joined:
  assumes "watch_loop cfg clock st ticks (la, w) = (ex, la', w')"
  shows "joined w' = joined w"
  by (rule watch_loop_invariant[where I = "\<lambda>u. joined u = joined w", OF assms])
     (simp_all add: delayed_finish_def)

lemma map_sum_returned:
  "map_option (map_sum f g) x = Some (Inr y) \<Longrightarrow> \<exists>v. x = Some (Inr v) \<and> g v = y"
proof (cases x)
  case None
  then show "map_option (map_sum f g) x = Some (Inr y) \<Longrightarrow> ?thesis" by simp
next
  case (Some a)
  then show "map_option (map_sum f g) x = Some (Inr y) \<Longrightarrow> ?thesis" by (cases a) auto
qed

lemma expired_fields [simp]:
  "items_failed (snd (expired clock b s w)) = items_failed w"
  "reboots (snd (expired clock b s w)) = reboots w"
  "finished (snd (expired clock b s w)) = finished w"
  "joined (snd (expired clock b s w)) = joined w"
  "outcomes (snd (expired clock b s w)) = outcomes w"
  "items_run (snd (expired clock b s w)) = items_run w"
  "seen (snd (expired clock b s w)) = seen w"
  by (simp_all add: expired_def split: option.splits)

lemma after_loop_return:
  "return_value (after_loop cfg clock st ex (la, w)) =
     (if printed (after_loop cfg clock st ex (la, w)) = None
      then items_failed (final (after_loop cfg clock st ex (la, w)))
             + reboots (final (after_loop cfg clock st ex (la, w)))
      else - 1)"
  by (simp add: after_loop_def Let_def case_prod_beta)

lemma after_loop_fields [simp]:
  "items_failed (final (after_loop cfg clock st ex (la, w))) = items_failed w"
  "reboots (final (after_loop cfg clock st ex (la, w))) = reboots w"
  "outcomes (final (after_loop cfg clock st ex (la, w))) = outcomes w"
  "items_run (final (after_loop cfg clock st ex (la, w))) = items_run w"
  "seen (final (after_loop cfg clock st ex (la, w))) = seen w"
  "cause (after_loop cfg clock st ex (la, w)) = ex"
  "finished (final (after_loop cfg clock st ex (la, w)))"
  "joined (final (after_loop cfg clock st ex (la, w)))"
  by (simp_all add: after_loop_def Let_def case_prod_beta)

text \<open>What a returning call of \<^verbatim>\<open>watch_items\<close> went through.\<close>

lemma watch_items_returned:
  assumes "watch_items cfg clock ticks w = Some (Inr v)"
  shows "\<exists>ex la w'.
     watch_loop cfg clock (clock (reads w)) ticks
       (clock (Suc (reads w)), w\<lparr>reads := Suc (Suc (reads w))\<rparr>) = (ex, la, w') \<and>
     ex \<noteq> Watching \<and> (\<forall>e. ex \<noteq> Escaped e) \<and> cause v = ex \<and>
     (if ex = Raised
      then v = \<lparr>return_value = - 1, cause = Raised, printed = None, final = w'\<rparr>
      else v = after_loop cfg clock (clock (reads w)) ex (la, w'))"
proof -
  obtain ex la w' where loop: "watch_loop cfg clock (clock (reads w)) ticks
       (clock (Suc (reads w)), w\<lparr>reads := Suc (Suc (reads w))\<rparr>) = (ex, la, w')"
    by (metis prod_cases3)
  have "ex \<noteq> Watching \<and> (\<forall>e. ex \<noteq> Escaped e) \<and> cause v = ex \<and>
     (if ex = Raised
      then v = \<lparr>return_value = - 1, cause = Raised, printed = None, final = w'\<rparr>
      else v = after_loop cfg clock (clock (reads w)) ex (la, w'))"
    using assms unfolding watch_items_def Let_def loop by (cases ex) auto
  with loop show ?thesis by blast
qed

text \<open>What a call of \<^verbatim>\<open>watch_items\<close> that an exception leaves went through.\<close>

lemma watch_items_escaped:
  assumes "watch_items cfg clock ticks w = Some (Inl (e, u))"
  shows "e = ValueError \<and> \<not> finished u \<and> joined u = joined w"
proof -
  obtain ex la w' where loop: "watch_loop cfg clock (clock (reads w)) ticks
       (clock (Suc (reads w)), w\<lparr>reads := Suc (Suc (reads w))\<rparr>) = (ex, la, w')"
    by (metis prod_cases3)
  have "ex = Escaped e \<and> w' = u"
    using assms unfolding watch_items_def Let_def loop by (cases ex) auto
  with loop watch_loop_escaped[of cfg clock "clock (reads w)" ticks "clock (Suc (reads w))"
         "w\<lparr>reads := Suc (Suc (reads w))\<rparr>" e la u]
       watch_loop_joined[of cfg clock "clock (reads w)" ticks "clock (Suc (reads w))"
         "w\<lparr>reads := Suc (Suc (reads w))\<rparr>" ex la w']
  show ?thesis by simp
qed

text \<open>
  When the loop was left through its condition, the value returned is the count of
  failures and reboots if neither notice was printed and -1 otherwise, and neither count
  is negative.
\<close>

lemma watch_items_counted:
  assumes "watch_items cfg clock ticks w = Some (Inr v)"
    and "cause v \<noteq> Raised"
    and "0 \<le> items_failed w" and "0 \<le> reboots w"
  shows "return_value v =
           (if printed v = None then items_failed (final v) + reboots (final v) else - 1) \<and>
         0 \<le> items_failed (final v) \<and> 0 \<le> reboots (final v)"
proof -
  from watch_items_returned[OF assms(1)] assms(2) obtain ex la w' where
    loop: "watch_loop cfg clock (clock (reads w)) ticks
       (clock (Suc (reads w)), w\<lparr>reads := Suc (Suc (reads w))\<rparr>) = (ex, la, w')"
    and ne: "\<forall>e. ex \<noteq> Escaped e"
    and v: "v = after_loop cfg clock (clock (reads w)) ex (la, w')" by auto
  have nn: "0 \<le> items_failed w' \<and> 0 \<le> reboots w'"
    using watch_loop_counts_nonneg[OF loop _ _ ne] assms(3,4) by simp
  have "return_value v =
          (if printed v = None then items_failed (final v) + reboots (final v) else - 1)"
    unfolding v by (rule after_loop_return)
  moreover have "0 \<le> items_failed (final v) \<and> 0 \<le> reboots (final v)"
    using nn unfolding v by simp
  ultimately show ?thesis by simp
qed

text \<open>Leaving the loop through its condition stops the pump and joins it.\<close>

lemma watch_items_stops_pump:
  assumes "watch_items cfg clock ticks w = Some (Inr v)" and "cause v \<noteq> Raised"
  shows "finished (final v) \<and> joined (final v)"
proof -
  from watch_items_returned[OF assms(1)] assms(2) obtain ex la w' where
    v: "v = after_loop cfg clock (clock (reads w)) ex (la, w')" by auto
  show ?thesis unfolding v by simp
qed

text \<open>
  C2 says that a session whose loop ends because \<^verbatim>\<open>results["finished"]\<close> was set, with
  neither budget used up, returns the failures plus the reboots. The budgets are tested
  again after the loop and after the join, with a new reading of the clock: here the
  summary line arrives at time 0 under a guard time of 10 seconds, the loop ends on
  \<^verbatim>\<open>finished\<close> with every test inside it passed, the clock reads 12 after the join, and
  the value returned is -1, with no failure and no reboot counted.
\<close>

theorem C2_counterexample:
  "map_option (map_sum fst (\<lambda>v. (cause v, printed v, return_value v,
                                 items_failed (final v) + reboots (final v))))
     (watch_items \<lparr>guard_time_seconds = Some 10, inactivity_time_seconds = None\<rparr>
        (\<lambda>n. if n < 5 then 0 else 12)
        [going (Line ''1 Tests 0 Failures 0 Ignored''), going Empty] initial_results)
   = Some (Inr (Finished, Some GuardTimerExpired, - 1, 0))"
  by code_simp

text \<open>
  C2 as the code has it. A session that ends because \<^verbatim>\<open>results["finished"]\<close> was found
  set returns the failures plus the reboots when the tests after the loop find neither
  budget used up, and that value is 0 exactly when both counts are (the counters start at
  zero and never go below); when one of those tests finds its budget used up the session
  returns -1.
\<close>

theorem C2_completed_returns_count:
  assumes "watch_items cfg clock ticks w = Some (Inr v)"
    and "cause v = Finished"
    and "0 \<le> items_failed w" and "0 \<le> reboots w"
  shows "(printed v = None \<longrightarrow>
            return_value v = items_failed (final v) + reboots (final v) \<and>
            (return_value v = 0 \<longleftrightarrow> items_failed (final v) = 0 \<and> reboots (final v) = 0)) \<and>
         (printed v \<noteq> None \<longrightarrow> return_value v = - 1)"
proof -
  from assms(2) have "cause v \<noteq> Raised" by simp
  from watch_items_counted[OF assms(1) this assms(3,4)] show ?thesis by auto
qed

text \<open>
  C2 on a session with budgets of 60 and 10 seconds: an item starts, fails, and the summary
  line ends the run two seconds after its start; the value returned is 1. Under a guard
  time of 1 second, with the clock moving on only after the loop, the session ends on the
  summary line as well and returns -1.
\<close>

theorem C2_completed_returns_count_witness:
  "\<exists>v v'. watch_items \<lparr>guard_time_seconds = Some 60, inactivity_time_seconds = Some 10\<rparr>
          (\<lambda>n. if n < 8 then 0 else 2)
          [going (Line ''Running testFoo...''), going (Line ''/a/b.c:10:testFoo:FAIL:boom''),
           going (Line ''1 Tests 1 Failures 0 Ignored''), going Empty]
          initial_results = Some (Inr v) \<and>
       cause v = Finished \<and> printed v = None \<and>
       0 \<le> items_failed initial_results \<and> 0 \<le> reboots initial_results \<and>
       return_value v = items_failed (final v) + reboots (final v) \<and>
       (return_value v = 0 \<longleftrightarrow> items_failed (final v) = 0 \<and> reboots (final v) = 0) \<and>
       return_value v = 1 \<and>
       watch_items \<lparr>guard_time_seconds = Some 1, inactivity_time_seconds = None\<rparr>
          (\<lambda>n. if n < 11 then 0 else 2)
          [going (Line ''Running testFoo...''), going (Line ''/a/b.c:10:testFoo:FAIL:boom''),
           going (Line ''1 Tests 1 Failures 0 Ignored''), going Empty]
          initial_results = Some (Inr v') \<and>
       cause v' = Finished \<and> printed v' \<noteq> None \<and> return_value v' = - 1"
proof -
  let ?ticks = "[going (Line ''Running testFoo...''), going (Line ''/a/b.c:10:testFoo:FAIL:boom''),
           going (Line ''1 Tests 1 Failures 0 Ignored''), going Empty]"
  have "map_option (map_sum fst (\<lambda>v. (cause v, printed v, return_value v)))
     (watch_items \<lparr>guard_time_seconds = Some 60, inactivity_time_seconds = Some 10\<rparr>
          (\<lambda>n. if n < 8 then 0 else 2) ?ticks initial_results)
     = Some (Inr (Finished, None, 1))"
    by code_simp
  from map_sum_returned[OF this] obtain v where v: "watch_items \<lparr>guard_time_seconds = Some 60, inactivity_time_seconds = Some 10\<rparr>
          (\<lambda>n. if n < 8 then 0 else 2) ?ticks initial_results = Some (Inr v)"
    and c: "cause v = Finished" "printed v = None" "return_value v = 1"
    by auto
  have "map_option (map_sum fst (\<lambda>v. (cause v, printed v, return_value v)))
     (watch_items \<lparr>guard_time_seconds = Some 1, inactivity_time_seconds = None\<rparr>
          (\<lambda>n. if n < 11 then 0 else 2) ?ticks initial_results)
     = Some (Inr (Finished, Some GuardTimerExpired, - 1))"
    by code_simp
  from map_sum_returned[OF this] obtain v' where v': "watch_items \<lparr>guard_time_seconds = Some 1, inactivity_time_seconds = None\<rparr>
          (\<lambda>n. if n < 11 then 0 else 2) ?ticks initial_results = Some (Inr v')"
    and c': "cause v' = Finished" "printed v' = Some GuardTimerExpired"
    by auto
  have z: "0 \<le> items_failed initial_results" "0 \<le> reboots initial_results"
    by (simp_all add: initial_results_def)
  from C2_completed_returns_count[OF v c(1) z] C2_completed_returns_count[OF v' c'(1) z]
       v c v' c' z
  show ?thesis by simp
qed

text \<open>
  C3 says that a cancelled session returns a negative value. The statements after the loop
  do not ask why the loop was left: a session cancelled at its first turn, with no budget
  used up, returns the count, here 0.
\<close>

theorem C3_counterexample:
  "map_option (map_sum fst (\<lambda>v. (cause v, printed v, return_value v, finished (final v))))
     (watch_items untimed (\<lambda>n. 0)
        [\<lparr>keep_going = Returns False, fired = False, got = Empty\<rparr>] initial_results)
   = Some (Inr (Cancelled, None, 0, True))"
  by code_simp

text \<open>
  C3 as the code has it: a session left because \<^verbatim>\<open>keep_going\<close> returned False, in which
  the tests after the loop find neither budget used up, returns the failures plus the
  reboots counted so far, which is never negative.
\<close>

theorem C3_cancelled_returns_count:
  assumes "watch_items cfg clock ticks w = Some (Inr v)"
    and "cause v = Cancelled" and "printed v = None"
    and "0 \<le> items_failed w" and "0 \<le> reboots w"
  shows "return_value v = items_failed (final v) + reboots (final v) \<and> 0 \<le> return_value v"
proof -
  from assms(2) have "cause v \<noteq> Raised" by simp
  from watch_items_counted[OF assms(1) this assms(4,5)] assms(3) show ?thesis by auto
qed

theorem C3_cancelled_returns_count_witness:
  "\<exists>v. watch_items untimed (\<lambda>n. 0)
          [going (Line ''/a/b.c:10:testFoo:FAIL:boom''),
           \<lparr>keep_going = Returns False, fired = False, got = Empty\<rparr>]
          initial_results = Some (Inr v) \<and>
       cause v = Cancelled \<and> printed v = None \<and>
       0 \<le> items_failed initial_results \<and> 0 \<le> reboots initial_results \<and>
       return_value v = items_failed (final v) + reboots (final v) \<and> 0 \<le> return_value v \<and>
       return_value v = 1"
proof -
  have "map_option (map_sum fst (\<lambda>v. (cause v, printed v, return_value v)))
     (watch_items untimed (\<lambda>n. 0)
          [going (Line ''/a/b.c:10:testFoo:FAIL:boom''),
           \<lparr>keep_going = Returns False, fired = False, got = Empty\<rparr>]
          initial_results) = Some (Inr (Cancelled, None, 1))"
    by code_simp
  from map_sum_returned[OF this] obtain v where v: "watch_items untimed (\<lambda>n. 0)
          [going (Line ''/a/b.c:10:testFoo:FAIL:boom''),
           \<lparr>keep_going = Returns False, fired = False, got = Empty\<rparr>]
          initial_results = Some (Inr v)"
    and c: "cause v = Cancelled" "printed v = None" "return_value v = 1"
    by auto
  have z: "0 \<le> items_failed initial_results" "0 \<le> reboots initial_results"
    by (simp_all add: initial_results_def)
  from C3_cancelled_returns_count[OF v c(1,2) z] v c z show ?thesis by simp
qed

text \<open>
  C7. The two statements that stop the pump and join it stand inside the \<^verbatim>\<open>try\<close>, after
  the loop. A session that dequeues the sample summary line, whose first number has 4301
  digits, is left by the \<^verbatim>\<open>ValueError\<close> of \<^verbatim>\<open>int()\<close>, which the \<^verbatim>\<open>except\<close> clause does
  not catch: \<^verbatim>\<open>results["finished"]\<close> is still False and the thread is not joined.
\<close>

theorem C7_exception_leaves_pump_running:
  "(case watch_items untimed (\<lambda>n. 0) [going (Line long_summary), going Empty] initial_results of
      Some (Inl (e, u)) \<Rightarrow> e = ValueError \<and> \<not> finished u \<and> \<not> joined u
    | Some (Inr v) \<Rightarrow> False
    | None \<Rightarrow> False)"
proof -
  from long_summary_matches obtain m where m: "re_match re_finish long_summary = Some m"
    and g: "length (mgroup m 1) = 4301" by blast
  from g have big: "\<exists>n \<in> {1, 2, 3}. int_max_str_digits < length (mgroup m n)"
    by (simp add: int_max_str_digits_def)
  define w1 where "w1 = initial_results\<lparr>reads := Suc (Suc (Suc 0)), seen := [long_summary]\<rparr>"
  from classify_raises[OF m big] obtain u where
    u: "classify (\<lambda>n. 0) long_summary w1 = Inl (ValueError, u)" by blast
  have "watch_items untimed (\<lambda>n. 0) [going (Line long_summary), going Empty] initial_results
          = Some (Inl (ValueError, u))"
    using u
    by (simp add: watch_items_def going_def untimed_def in_budget_def initial_results_def
          w1_def Let_def)
  moreover from watch_items_escaped[OF this] have "\<not> finished u \<and> \<not> joined u"
    by (simp add: initial_results_def)
  ultimately show ?thesis by simp
qed

section \<open>After the summary line\<close>

text \<open>Once \<^verbatim>\<open>results["finished"]\<close> is set the loop takes no further line.\<close>

lemma finished_update_idem: "finished w \<Longrightarrow> w\<lparr>finished := True\<rparr> = w"
  by (cases w) simp

lemma watch_loop_finished:
  assumes "finished w"
  shows "snd (snd (watch_loop cfg clock st ticks (la, w))) = w"
proof (cases ticks)
  case Nil
  then show ?thesis by simp
next
  case (Cons tk tks)
  show ?thesis
    unfolding Cons watch_loop_step using assms
    by (simp add: Let_def delayed_finish_def finished_update_idem split: call.splits)
qed

text \<open>
  C8 says that items_failed is at most items_run once the summary line has been classified.
  The handler stores the two captured numbers as they are: on the line
  \<^verbatim>\<open>1 Tests 5 Failures 0 Ignored\<close> the run is finished with 5 failures of 1 item run.
\<close>

theorem C8_counterexample:
  "(case classify (\<lambda>n. 0) ''1 Tests 5 Failures 0 Ignored'' initial_results of
      Inl r \<Rightarrow> False
    | Inr u \<Rightarrow> finished u \<and> items_run u = 1 \<and> items_failed u = 5 \<and>
               \<not> items_failed u \<le> items_run u)"
  by code_simp

text \<open>
  C8 as the code has it: after a line that matches the summary pattern with numbers of at
  most 4300 digits the run is finished, items_run and items_failed are the first and the
  second captured number, so that items_failed is at most items_run exactly when the line
  says so; and whatever the environment does next, the loop classifies no further line and
  leaves the state as it is.
\<close>

theorem C8_summary_line_decides:
  assumes "re_match re_finish line = Some m"
    and "\<forall>n \<in> {1, 2, 3}. length (mgroup m n) \<le> int_max_str_digits"
  shows "\<exists>w'. classify clock line w = Inr w' \<and> finished w' \<and>
           (items_failed w' \<le> items_run w'
              \<longleftrightarrow> decimal (mgroup m 2) \<le> decimal (mgroup m 1)) \<and>
           snd (snd (watch_loop cfg clock st ticks (la, w'))) = w'"
proof -
  from assms obtain w' where w': "classify clock line w = Inr w'"
    unfolding classify_steps try_finish_returns[OF assms] by simp
  from classify_returned(4)[OF w'] assms(1) have f: "finished w'" by simp
  from classify_returned(1,2)[OF w'] assms(1) f watch_loop_finished[OF f] w'
  show ?thesis by simp
qed

theorem C8_summary_line_decides_witness:
  "\<exists>m w'. re_match re_finish ''22 Tests 1 Failures 0 Ignored'' = Some m \<and>
     list_all (\<lambda>n. length (mgroup m n) \<le> int_max_str_digits) [1, 2, 3] \<and>
     decimal (mgroup m 2) \<le> decimal (mgroup m 1) \<and>
     classify (\<lambda>n. 0) ''22 Tests 1 Failures 0 Ignored'' initial_results = Inr w' \<and>
     finished w' \<and> items_failed w' \<le> items_run w' \<and>
     snd (snd (watch_loop untimed (\<lambda>n. 0) 0 [going (Line ''/a/b.c:10:testFoo:FAIL:late'')]
                (0, w'))) = w'"
proof -
  have "map_option (\<lambda>m. (mgroup m 1, mgroup m 2, mgroup m 3))
          (re_match re_finish ''22 Tests 1 Failures 0 Ignored'') = Some (''22'', ''1'', ''0'')"
    by code_simp
  then obtain m where m: "re_match re_finish ''22 Tests 1 Failures 0 Ignored'' = Some m"
    and g: "mgroup m 1 = ''22''" "mgroup m 2 = ''1''" "mgroup m 3 = ''0''"
    by auto
  have d: "decimal ''22'' = 22" "decimal ''1'' = 1"
    by (simp_all add: decimal_def)
  have fits: "\<forall>n \<in> {1, 2, 3}. length (mgroup m n) \<le> int_max_str_digits"
    using g by (simp add: int_max_str_digits_def)
  from C8_summary_line_decides[OF m fits, of "\<lambda>n. 0" initial_results untimed 0
         "[going (Line ''/a/b.c:10:testFoo:FAIL:late'')]" 0] m g d fits
  show ?thesis by (auto simp: list_all_iff)
qed

section \<open>Items started\<close>

text \<open>
  C10. The item-start handler adds one to items_run and stores the time it reads as the
  start time. In a session whose counters started at zero, as long as no dequeued line
  matched the summary pattern, items_run is the number of dequeued lines that matched the
  item-start pattern, whatever became of the items.
\<close>

theorem C10_items_run_counts_starts:
  assumes "watch_loop cfg clock st ticks (la, w) = (ex, la', w')"
    and "seen w = []" and "items_run w = 0"
    and "\<forall>l \<in> set (seen w'). re_match re_finish l = None"
  shows "items_run (run_callback clock m u) = items_run u + 1 \<and>
         last_start_time (run_callback clock m u) = clock (reads u) \<and>
         items_run w' = int (length (filter (\<lambda>l. re_match re_run l \<noteq> None) (seen w')))"
proof -
  let ?I = "\<lambda>u :: world. (\<forall>l \<in> set (seen u). re_match re_finish l = None) \<longrightarrow>
              items_run u = int (length (filter (\<lambda>l. re_match re_run l \<noteq> None) (seen u)))"
  have "?I w'"
  proof (rule watch_loop_invariant[where I = ?I, OF assms(1)])
    show "?I w" using assms(2,3) by simp
  next
    fix u :: world and l assume i: "?I u"
    let ?u = "u\<lparr>reads := Suc (reads u), seen := seen u @ [l]\<rparr>"
    show "?I (left_by (classify clock l ?u))"
    proof (cases "classify clock l ?u")
      case (Inl r)
      obtain e x where "r = (e, x)" by (cases r)
      with Inl classify_raised[of clock l ?u e x] have "re_match re_finish l \<noteq> None" by simp
      moreover have "seen (left_by (classify clock l ?u)) = seen u @ [l]" by simp
      ultimately show ?thesis by auto
    next
      case (Inr w3)
      have "seen (left_by (classify clock l ?u)) = seen u @ [l]" by simp
      with Inr have s: "seen w3 = seen u @ [l]" by (simp add: left_by_def)
      from classify_returned(1)[OF Inr] i s Inr show ?thesis
        by (auto simp: left_by_def)
    qed
  next
    fix u :: world assume "?I u" then show "?I (u\<lparr>reads := Suc (reads u)\<rparr>)" by simp
  next
    fix u :: world assume "?I u" then show "?I (delayed_finish u)" by (simp add: delayed_finish_def)
  qed
  with assms(4) show ?thesis by (simp add: run_callback_def)
qed

text \<open>
  C10 on a session still watching after three lines: two items started, one of them
  passed, and items_run is 2 while one outcome is recorded.
\<close>

theorem C10_items_run_counts_starts_witness:
  "\<exists>ex la' w'.
     watch_loop untimed (\<lambda>n. 0) 0
       [going (Line ''Running testFoo...''), going (Line ''/a/b.c:10:testFoo:PASS''),
        going (Line ''Running testBar...'')] (0, initial_results) = (ex, la', w') \<and>
     seen initial_results = [] \<and> items_run initial_results = 0 \<and>
     list_all (\<lambda>l. re_match re_finish l = None) (seen w') \<and>
     items_run w' = int (length (filter (\<lambda>l. re_match re_run l \<noteq> None) (seen w'))) \<and>
     items_run w' = 2 \<and> length (outcomes w') = 1 \<and> ex = Watching"
proof -
  obtain ex la' w' where loop: "watch_loop untimed (\<lambda>n. 0) 0
       [going (Line ''Running testFoo...''), going (Line ''/a/b.c:10:testFoo:PASS''),
        going (Line ''Running testBar...'')] (0, initial_results) = (ex, la', w')"
    by (metis prod_cases3)
  have ev: "(case watch_loop untimed (\<lambda>n. 0) 0
       [going (Line ''Running testFoo...''), going (Line ''/a/b.c:10:testFoo:PASS''),
        going (Line ''Running testBar...'')] (0, initial_results) of
       (ex, la', w') \<Rightarrow> (ex, seen w', items_run w', length (outcomes w')))
     = (Watching, [''Running testFoo...'', ''/a/b.c:10:testFoo:PASS'', ''Running testBar...''], 2, 1)"
    by code_simp
  have nf: "list_all (\<lambda>l. re_match re_finish l = None)
      [''Running testFoo...'', ''/a/b.c:10:testFoo:PASS'', ''Running testBar...'']"
    by code_simp
  from ev loop have s: "seen w' = [''Running testFoo...'', ''/a/b.c:10:testFoo:PASS'', ''Running testBar...'']"
    and r: "items_run w' = 2" "length (outcomes w') = 1" "ex = Watching" by simp_all
  have z: "seen initial_results = []" "items_run initial_results = 0"
    by (simp_all add: initial_results_def)
  have all: "\<forall>l \<in> set (seen w'). re_match re_finish l = None"
    using nf unfolding s by (simp add: list_all_iff)
  from C10_items_run_counts_starts[OF loop z all] loop z nf s r show ?thesis
    by simp
qed

section \<open>Durations\<close>

text \<open>
  C6 says that the duration of an outcome is the time from the start marker of that item to
  the marker that resolves it. The handlers keep one start time for the whole run: item A
  starts at time 0, item B starts at time 5, and the PASS marker of A, read at time 7, is
  recorded with a duration of 2 seconds, not 7.
\<close>

theorem C6_counterexample:
  "last_start_time (snd (snd (watch_loop untimed
      (\<lambda>n. if n < 2 then 0 else if n < 4 then 5 else 7) 0
      [going (Line ''Running A...'')] (0, initial_results)))) = 0 \<and>
   outcomes (snd (snd (watch_loop untimed
      (\<lambda>n. if n < 2 then 0 else if n < 4 then 5 else 7) 0
      [going (Line ''Running A...''), going (Line ''Running B...''),
       going (Line ''/a/b.c:10:A:PASS'')] (0, initial_results))))
     = [(''A'', 2, ''PASS'')] \<and>
   \<lceil>7 - 0 :: real\<rceil> \<noteq> (2 :: int)"
  by code_simp

text \<open>
  C6 as the code has it, for every line. The stored start time is the time read at the
  latest line that matched the item-start pattern, whichever item it named: such a line
  sets it (first of all, when the same line resolves an item too) and no other line
  changes it. A line adds an outcome with status PASS when it matches the PASS pattern
  and then one with status FAIL when it matches the FAIL pattern, after the outcomes
  already recorded; each has the captured name and, as its duration, the time its handler
  reads minus the stored start time, rounded up to whole seconds. \<open>k\<close> and \<open>k'\<close> number the
  clock readings that the PASS and the FAIL handler take.
\<close>

theorem C6_duration_since_latest_start:
  "(let start = (if re_match re_run line = None then last_start_time w else clock (reads w));
        k = (if re_match re_run line = None then reads w else Suc (reads w));
        k' = (if re_match re_pass line = None then k else Suc k)
    in outcomes (left_by (classify clock line w)) =
         outcomes w
         @ (case re_match re_pass line of
              None \<Rightarrow> []
            | Some m \<Rightarrow> [(mgroup m 1, \<lceil>clock k - start\<rceil>, ''PASS'')])
         @ (case re_match re_fail line of
              None \<Rightarrow> []
            | Some m \<Rightarrow> [(mgroup m 1, \<lceil>clock k' - start\<rceil>, ''FAIL'')]) \<and>
       last_start_time (left_by (classify clock line w)) = start)"
  unfolding Let_def classify_outcomes classify_last_start_time by simp

text \<open>
  C6 on the lines of the example: the start marker of testFoo is read at time 100 and its
  PASS marker at time 103, and the one outcome recorded is testFoo, 3 seconds, PASS. A
  line that is both a FAIL marker and a start marker is timed from its own start: with the
  clock at 100 and then 102, its duration is 2 seconds.
\<close>

theorem C6_duration_since_latest_start_witness:
  "outcomes (left_by (classify (\<lambda>n. 103) ''/a/b.c:10:testFoo:PASS''
                 (initial_results\<lparr>last_start_time := 100\<rparr>)))
     = [(''testFoo'', 3, ''PASS'')] \<and>
   last_start_time (left_by (classify (\<lambda>n. 103) ''/a/b.c:10:testFoo:PASS''
                 (initial_results\<lparr>last_start_time := 100\<rparr>))) = 100 \<and>
   outcomes (left_by (classify (\<lambda>n. if n = 0 then 100 else 102)
                 ''a.c:10:test:FAIL:Running foo...'' initial_results))
     = [(''test'', 2, ''FAIL'')] \<and>
   last_start_time (left_by (classify (\<lambda>n. if n = 0 then 100 else 102)
                 ''a.c:10:test:FAIL:Running foo...'' initial_results)) = 100 \<and>
   outcomes (snd (snd (watch_loop untimed (\<lambda>n. if n < 2 then 100 else 103) 100
        [going (Line ''Running testFoo...''), going (Line ''/a/b.c:10:testFoo:PASS'')]
        (100, initial_results))))
     = [(''testFoo'', 3, ''PASS'')]"
proof -
  have p: "map_option (\<lambda>m. mgroup m 1) (re_match re_pass ''/a/b.c:10:testFoo:PASS'')
          = Some ''testFoo''"
    "map_option (\<lambda>m. mgroup m 1) (re_match re_fail ''a.c:10:test:FAIL:Running foo...'')
          = Some ''test''"
    by code_simp+
  have n: "re_match re_run ''/a/b.c:10:testFoo:PASS'' = None"
    "re_match re_fail ''/a/b.c:10:testFoo:PASS'' = None"
    "re_match re_pass ''a.c:10:test:FAIL:Running foo...'' = None"
    by code_simp+
  have r: "re_match re_run ''a.c:10:test:FAIL:Running foo...'' \<noteq> None"
    by code_simp
  have z: "outcomes (initial_results\<lparr>last_start_time := 100\<rparr>) = []"
    "last_start_time (initial_results\<lparr>last_start_time := 100\<rparr>) = 100"
    "reads (initial_results\<lparr>last_start_time := 100\<rparr>) = 0"
    "reads initial_results = 0" "outcomes initial_results = []"
    by (simp_all add: initial_results_def)
  have ex: "outcomes (snd (snd (watch_loop untimed (\<lambda>n. if n < 2 then 100 else 103) 100
        [going (Line ''Running testFoo...''), going (Line ''/a/b.c:10:testFoo:PASS'')]
        (100, initial_results))))
       = [(''testFoo'', 3, ''PASS'')]"
    by code_simp
  from C6_duration_since_latest_start[of "''/a/b.c:10:testFoo:PASS''"
         "initial_results\<lparr>last_start_time := 100\<rparr>" "\<lambda>n. 103"]
       C6_duration_since_latest_start[of "''a.c:10:test:FAIL:Running foo...''"
         initial_results "\<lambda>n. if n = 0 then 100 else 102"]
       p n r z ex
  show ?thesis by (auto simp: Let_def)
qed

section \<open>The report\<close>

text \<open>
  A session given a report handle and a non-empty instance writes one document, the
  opening line with the two counters, then one entry for each recorded outcome, in the
  order of recording, then the closing line; any other session that returns writes
  nothing.
\<close>

lemma report_lists_outcomes:
  assumes "main args clock ticks = Some (Inr e)"
  shows "report e =
           (if report_handle args \<and> instance args \<noteq> None \<and> instance args \<noteq> Some []
            then testsuite_open (''instance '' @ get_instance_text args (the (instance args)))
                   (items_run (results_left e)) (items_failed (results_left e))
                 # map testcase (outcomes (results_left e)) @ [testsuite_close]
            else [])"
  using assms
  by (auto simp: main_def write_report_def Let_def
        split: option.splits bool.splits if_splits sum.splits)

text \<open>
  C9. The script's own command line calls \<^verbatim>\<open>main\<close> with the report handle of its
  \<^verbatim>\<open>-x\<close> option and with no instance. A session called so that records an outcome
  writes nothing to the handle.
\<close>

theorem C9_no_instance_no_report:
  "map_option (map_sum fst (\<lambda>e. (code e, outcomes (results_left e), report e)))
     (main (bare\<lparr>report_handle := True\<rparr>) (\<lambda>n. 0)
        [going (Line ''/a/b.c:10:testFoo:PASS''), going (Line ''1 Tests 0 Failures 0 Ignored''),
         going Empty])
   = Some (Inr (0, [(''testFoo'', 0, ''PASS'')], []))"
  by code_simp

section \<open>The transport reader\<close>

lemma read_loop_accumulates:
  "\<forall>c \<in> set cs. ascii c \<and> c \<noteq> b \<Longrightarrow>
   read_loop [b] (map Some cs @ h) line = read_loop [b] h (line @ cs)"
  by (induction cs arbitrary: line) auto

text \<open>
  C4 says that characters read before a moment without data are kept for the next call.
  The line under construction is a local variable of the call: after \<^verbatim>\<open>ab\<close>, a read that
  times out and then \<^verbatim>\<open>cd\<close> and the terminator, the first call returns None and the second
  returns \<^verbatim>\<open>cd\<close>; \<^verbatim>\<open>abcd\<close> is never returned.
\<close>

theorem C4_counterexample:
  "pwar_readline [Some CHR ''a'', Some CHR ''b'', None,
                  Some CHR ''c'', Some CHR ''d'', Some CHR 0x0D] (Some [CHR 0x0D])
     = (None, [Some CHR ''c'', Some CHR ''d'', Some CHR 0x0D]) \<and>
   pwar_readline [Some CHR ''c'', Some CHR ''d'', Some CHR 0x0D] (Some [CHR 0x0D])
     = (Some ''cd'', [])"
  by code_simp

text \<open>
  C4 as the code has it: when a read finds no data after the characters \<open>cs\<close> of a line,
  the call returns None and the characters are dropped; the call that later meets the
  terminator \<open>b\<close> returns only what was read after the gap, stripped of white space.
\<close>

theorem C4_no_data_drops_partial_line:
  assumes "\<forall>c \<in> set cs. ascii c \<and> c \<noteq> b" and "\<forall>c \<in> set ds. ascii c \<and> c \<noteq> b"
    and "ascii b"
  shows "pwar_readline (map Some cs @ None # map Some ds @ Some b # h) (Some [b])
           = (None, map Some ds @ Some b # h) \<and>
         pwar_readline (map Some ds @ Some b # h) (Some [b]) = (Some (strip ds), h)"
  using assms by (simp add: pwar_readline_def read_loop_accumulates)

theorem C4_no_data_drops_partial_line_witness:
  "list_all (\<lambda>c. ascii c \<and> c \<noteq> CHR 0x0D) ''ab'' \<and>
   list_all (\<lambda>c. ascii c \<and> c \<noteq> CHR 0x0D) ''cd '' \<and> ascii (CHR 0x0D) \<and>
   pwar_readline (map Some ''ab'' @ None # map Some ''cd '' @ Some (CHR 0x0D) # [])
       (Some [CHR 0x0D])
     = (None, map Some ''cd '' @ Some (CHR 0x0D) # []) \<and>
   pwar_readline (map Some ''cd '' @ Some (CHR 0x0D) # []) (Some [CHR 0x0D])
     = (Some ''cd'', [])"
proof -
  have a: "\<forall>c \<in> set ''ab''. ascii c \<and> c \<noteq> CHR 0x0D"
    "\<forall>c \<in> set ''cd ''. ascii c \<and> c \<noteq> CHR 0x0D" "ascii (CHR 0x0D)"
    by (simp_all add: ascii_def)
  have s: "strip ''cd '' = ''cd''"
    by code_simp
  from C4_no_data_drops_partial_line[OF a, of "[]"] a s show ?thesis
    by (simp add: list_all_iff)
qed

end
